theory Spec2Isabelle
  imports Complex_Main "HOL-Library.Sublist"
begin

section \<open>DevNet pipeline monitor: data model\<close>

text \<open>
  The program is \<^verbatim>\<open>devops_monitor.py\<close>. A run is the dictionary that \<^verbatim>\<open>api_run\<close>
  builds and \<^verbatim>\<open>_simulate_pipeline\<close> mutates; it always has the same eight keys, so it is a
  record here. The key \<^verbatim>\<open>id\<close> is the field \<open>run_id\<close>.

  Time stamps: \<^verbatim>\<open>_utcnow_iso\<close> renders the clock with \<^verbatim>\<open>timespec="seconds"\<close>, so a stamp
  is a whole number of seconds since the epoch (\<open>int\<close>); the ISO rendering and its parsing
  by \<^verbatim>\<open>datetime.fromisoformat\<close> are inverse to each other and are not modelled. The
  clock itself (\<^verbatim>\<open>time.time()\<close>, \<^verbatim>\<open>datetime.utcnow()\<close>) is a rational number of seconds.
  \<^verbatim>\<open>None\<close> is \<open>None\<close>.
\<close>

record run =
  run_id :: string
  job :: string
  status :: string
  steps :: "string list"
  current_step :: "string option"
  started_at :: int
  finished_at :: "int option"
  duration_s :: "int option"

subsection \<open>Strings\<close>

text \<open>
  A Python \<^verbatim>\<open>str\<close> is a sequence of code points; here it is the sequence of the bytes that
  the UTF-8 scheme gives its code points, one \<open>char\<close> for each byte. A \<^verbatim>\<open>str\<close> may hold a
  surrogate code point (U+D800 to U+DFFF; \<^verbatim>\<open>json\<close> reads the escape of one as one), which
  the \<^verbatim>\<open>utf-8\<close> codec refuses to encode. Such a code point is written here with the three
  bytes the scheme gives its number: \<open>0xED\<close>, a byte from \<open>0xA0\<close> to \<open>0xBF\<close>, a byte from \<open>0x80\<close>
  to \<open>0xBF\<close>. No other code point has \<open>0xED\<close> followed by a byte from \<open>0xA0\<close> on, so
  \<^verbatim>\<open>s.encode("utf-8")\<close> succeeds exactly when that pair of bytes does not occur in \<open>s\<close>,
  and raises \<^verbatim>\<open>UnicodeEncodeError\<close> when it does. \<open>ascii\<close> are the strings of code points
  below 128, which all the literals of the program are.
\<close>

datatype error = UnicodeEncodeError

definition surrogate_lead :: "char \<Rightarrow> char \<Rightarrow> bool" where
  "surrogate_lead a b = (a = CHR 0xED \<and> (0xA0 :: nat) \<le> of_char b \<and> of_char b \<le> (0xBF :: nat))"

fun utf8_encodable :: "string \<Rightarrow> bool" where
  "utf8_encodable (a # b # s) = (\<not> surrogate_lead a b \<and> utf8_encodable (b # s))"
| "utf8_encodable [a] = True"
| "utf8_encodable [] = True"

definition ascii :: "string \<Rightarrow> bool" where
  "ascii s = list_all (\<lambda>c. of_char c < (128 :: nat)) s"

subsection \<open>The persistence port\<close>

text \<open>
  The two JSON documents (\<^verbatim>\<open>builds.json\<close>, \<^verbatim>\<open>history.json\<close>), the log files, and the
  clock make the state of the world. \<open>journal\<close> records every write of the port in the
  order it happens; nothing reads it. \<^verbatim>\<open>json.dump\<close> escapes every code point above 127
  (\<^verbatim>\<open>ensure_ascii\<close> is left at its default), so saving a document does not fail on any
  string.

  A log line \<^verbatim>\<open>f"[{_utcnow_iso()}] text"\<close> is the pair of its stamp and its text.
  \<^verbatim>\<open>_write_log\<close> strips trailing white space from the line; no text the engine writes
  ends in white space, so the line is stored as it is. The log file is opened with
  \<^verbatim>\<open>encoding="utf-8"\<close>: \<^verbatim>\<open>f.write\<close> encodes the line before any byte reaches the file and
  raises \<^verbatim>\<open>UnicodeEncodeError\<close> on a line that cannot be encoded, and so does \<^verbatim>\<open>open\<close> on
  a file name that cannot (the name holds the run id; the file system encoding of a POSIX
  system admits the code points U+DC80 to U+DCFF in a name, which is not told apart here:
  a run id is eight hexadecimal digits). \<^verbatim>\<open>_write_log\<close> catches nothing, so \<open>write_log\<close>
  returns the error, or the world with the line appended (\<open>append_log\<close>).
\<close>

type_synonym log_line = "int \<times> string"

datatype io_event =
    Saved_current "run list"
  | Saved_history "run list"
  | Wrote_log string log_line

record world =
  builds :: "run list"
  history :: "run list"
  logs :: "string \<Rightarrow> log_line list"
  clock :: rat
  journal :: "io_event list"

definition utcnow_iso :: "world \<Rightarrow> int" where
  "utcnow_iso w = \<lfloor>clock w\<rfloor>"

definition save_current :: "run list \<Rightarrow> world \<Rightarrow> world" where
  "save_current doc w = w\<lparr>builds := doc, journal := journal w @ [Saved_current doc]\<rparr>"

definition save_history :: "run list \<Rightarrow> world \<Rightarrow> world" where
  "save_history doc w = w\<lparr>history := doc, journal := journal w @ [Saved_history doc]\<rparr>"

definition append_history :: "run \<Rightarrow> world \<Rightarrow> world" where
  "append_history entry w = save_history (history w @ [entry]) w"

definition append_log :: "string \<Rightarrow> log_line \<Rightarrow> world \<Rightarrow> world" where
  "append_log rid line w =
     w\<lparr>logs := (logs w)(rid := logs w rid @ [line]),
       journal := journal w @ [Wrote_log rid line]\<rparr>"

definition write_log :: "string \<Rightarrow> log_line \<Rightarrow> world \<Rightarrow> error + world" where
  "write_log rid line w =
     (if utf8_encodable rid \<and> utf8_encodable (snd line) then Inr (append_log rid line w)
      else Inl UnicodeEncodeError)"

definition sleep :: "rat \<Rightarrow> world \<Rightarrow> world" where
  "sleep d w = w\<lparr>clock := clock w + d\<rparr>"

subsection \<open>The snapshot store\<close>

text \<open>
  \<^verbatim>\<open>_save_current_snapshot\<close>: drop the entries with the run's id, put the run in front,
  keep the first 100. \<open>upsert_current\<close> is the list computation, \<open>save_current_snapshot\<close>
  the read-modify-write on the world.
\<close>

definition upsert_current :: "run \<Rightarrow> run list \<Rightarrow> run list" where
  "upsert_current r cur = take 100 (r # filter (\<lambda>x. run_id x \<noteq> run_id r) cur)"

definition save_current_snapshot :: "run \<Rightarrow> world \<Rightarrow> world" where
  "save_current_snapshot r w = save_current (upsert_current r (builds w)) w"

text \<open>
  The states of the current-runs list: the empty list (a missing or unreadable file, a
  reset, the start of the process) and whatever an upsert makes of a state.
\<close>

inductive current_state :: "run list \<Rightarrow> bool" where
  empty: "current_state []"
| upsert: "current_state cur \<Longrightarrow> current_state (upsert_current r cur)"

section \<open>Python values\<close>

text \<open>
  A Python float is an IEEE 754 double and is modelled by the rational number it is. \<open>fl x\<close>
  is the double nearest to the rational \<open>x\<close>: 53 significant bits, a tie going to the even
  significand. The float operations round their exact result: \<^verbatim>\<open>a / b\<close> is \<open>truediv a b\<close>
  (also for two integers, whose quotient CPython rounds once), \<^verbatim>\<open>a * b\<close> is \<open>fmul a b\<close>,
  \<^verbatim>\<open>a + b\<close> is \<open>fadd a b\<close>, and \<^verbatim>\<open>sum(xs)\<close> adds from left to right, starting from 0, each
  addition rounded (CPython from 3.12 on also carries the rounding errors along and adds
  them at the end; on the histories evaluated in this theory the two sums are the same
  double). The exponent range is not modelled (no overflow, no subnormal numbers): the
  quantities of the metrics lie far inside it.

  \<^verbatim>\<open>int(x)\<close> truncates towards zero. \<^verbatim>\<open>round(x, 1)\<close> takes the one-decimal number nearest to
  the double \<open>x\<close>, a tie going to the even digit, and returns the double nearest to it.
  \<^verbatim>\<open>timedelta.total_seconds()\<close> divides the microseconds by \<open>10\<^sup>6\<close>; the stamps are whole
  seconds.
\<close>

definition py_int :: "rat \<Rightarrow> int" where
  "py_int x = (if 0 \<le> x then \<lfloor>x\<rfloor> else \<lceil>x\<rceil>)"

definition round_half_even :: "rat \<Rightarrow> int" where
  "round_half_even x =
     (let f = \<lfloor>x\<rfloor>; d = x - of_int f
      in if d < 1 / 2 then f else if 1 / 2 < d then f + 1 else if even f then f else f + 1)"

fun bit_length :: "nat \<Rightarrow> nat" where
  "bit_length n = (if n = 0 then 0 else Suc (bit_length (n div 2)))"

declare bit_length.simps [simp del]

definition pow2 :: "int \<Rightarrow> rat" where
  "pow2 e = (if 0 \<le> e then 2 ^ nat e else 1 / 2 ^ nat (- e))"

text \<open>The binary exponent of a positive rational: \<open>2\<^sup>e \<le> x < 2\<^sup>e\<^sup>+\<^sup>1\<close> for \<open>e = ilog2 x\<close>.\<close>

definition ilog2 :: "rat \<Rightarrow> int" where
  "ilog2 x = (if 1 \<le> x then int (bit_length (nat \<lfloor>x\<rfloor>)) - 1
              else - int (bit_length (nat (\<lceil>1 / x\<rceil> - 1))))"

definition fl :: "rat \<Rightarrow> rat" where
  "fl x = (if x = 0 then 0
           else (let e = ilog2 \<bar>x\<bar> - 52 in of_int (round_half_even (x / pow2 e)) * pow2 e))"

definition truediv :: "rat \<Rightarrow> rat \<Rightarrow> rat" where
  "truediv a b = fl (a / b)"

definition fmul :: "rat \<Rightarrow> rat \<Rightarrow> rat" where
  "fmul a b = fl (a * b)"

definition fadd :: "rat \<Rightarrow> rat \<Rightarrow> rat" where
  "fadd a b = fl (a + b)"

definition py_sum :: "rat list \<Rightarrow> rat" where
  "py_sum xs = foldl fadd 0 xs"

definition py_round1 :: "rat \<Rightarrow> rat" where
  "py_round1 x = fl (of_int (round_half_even (x * 10)) / 10)"

definition total_seconds :: "int \<Rightarrow> rat" where
  "total_seconds d = truediv (of_int (d * 10 ^ 6)) (10 ^ 6)"

definition get_or :: "('k \<rightharpoonup> 'v) \<Rightarrow> 'k \<Rightarrow> 'v \<Rightarrow> 'v" where
  "get_or d k dflt = (case d k of Some v \<Rightarrow> v | None \<Rightarrow> dflt)"

text \<open>\<^verbatim>\<open>f"{n}"\<close> for an integer: its decimal digits.\<close>

definition digit_char :: "nat \<Rightarrow> char" where
  "digit_char d = char_of (48 + d)"

fun str_nat :: "nat \<Rightarrow> string" where
  "str_nat n = (if n < 10 then [digit_char n] else str_nat (n div 10) @ [digit_char (n mod 10)])"

declare str_nat.simps [simp del]

definition str_int :: "int \<Rightarrow> string" where
  "str_int i = (if i < 0 then CHR ''-'' # str_nat (nat (- i)) else str_nat (nat i))"

definition quoted :: "string \<Rightarrow> string" where
  "quoted s = CHR 0x27 # s @ [CHR 0x27]"

section \<open>The pipeline catalog\<close>

definition PIPELINE :: "string \<rightharpoonup> string list" where
  "PIPELINE = map_of
     [(''app-ci'', [''checkout'', ''install-deps'', ''lint'', ''unit-tests'',
                    ''build-artifact'', ''deploy-staging'']),
      (''api-ci'', [''checkout'', ''install-deps'', ''unit-tests'', ''integration-tests'',
                    ''security-scan'', ''docker-build'', ''deploy-prod''])]"

definition STEP_TIME :: "string \<rightharpoonup> rat \<times> rat" where
  "STEP_TIME = map_of
     [(''checkout'', (4 / 10, 9 / 10)),
      (''install-deps'', (8 / 10, 16 / 10)),
      (''lint'', (6 / 10, 14 / 10)),
      (''unit-tests'', (1, 25 / 10)),
      (''integration-tests'', (13 / 10, 3)),
      (''security-scan'', (1, 28 / 10)),
      (''build-artifact'', (8 / 10, 18 / 10)),
      (''docker-build'', (12 / 10, 32 / 10)),
      (''deploy-staging'', (9 / 10, 2)),
      (''deploy-prod'', (12 / 10, 26 / 10))]"

definition STEP_FAIL_PROB :: "string \<rightharpoonup> rat" where
  "STEP_FAIL_PROB = map_of
     [(''checkout'', 1 / 100),
      (''install-deps'', 4 / 100),
      (''lint'', 10 / 100),
      (''unit-tests'', 12 / 100),
      (''integration-tests'', 18 / 100),
      (''security-scan'', 22 / 100),
      (''build-artifact'', 5 / 100),
      (''docker-build'', 8 / 100),
      (''deploy-staging'', 10 / 100),
      (''deploy-prod'', 16 / 100)]"

section \<open>The step simulator\<close>

text \<open>
  The random source is an input: for the step at position \<open>i\<close> of a run, \<open>rnd i\<close> holds the
  three draws the step makes, in the order it makes them: the \<^verbatim>\<open>random.uniform\<close> of
  the sleep (as the underlying \<^verbatim>\<open>random()\<close> in \<open>[0, 1)\<close>), the raw integer behind
  \<^verbatim>\<open>randint\<close> or \<^verbatim>\<open>choice\<close> in the step's output, and the \<^verbatim>\<open>random.random()\<close> of the
  failure roll.
\<close>

record draws =
  u_sleep :: rat
  n_out :: nat
  u_fail :: rat

definition uniform :: "rat \<Rightarrow> rat \<Rightarrow> rat \<Rightarrow> rat" where
  "uniform a b u = a + (b - a) * u"

definition randint :: "int \<Rightarrow> int \<Rightarrow> nat \<Rightarrow> int" where
  "randint a b n = a + int (n mod nat (b - a + 1))"

definition choice :: "'a list \<Rightarrow> nat \<Rightarrow> 'a" where
  "choice xs n = xs ! (n mod length xs)"

definition simulate_step_output :: "string \<Rightarrow> nat \<Rightarrow> string" where
  "simulate_step_output step n =
     (if step = ''lint'' then ''Lint: flake8 passed (0 errors)''
      else if step = ''unit-tests'' then ''Unit tests: '' @ str_int (randint 80 220 n) @ '' passed''
      else if step = ''integration-tests'' then
        ''Integration tests: '' @ str_int (randint 25 90 n) @ '' passed''
      else if step = ''security-scan'' then
        (let vulns = choice [0, 0, 1, 2, 3] n
         in ''Security scan: found '' @ str_int vulns @ '' issues (sev: low/med/high mixed)'')
      else if step = ''docker-build'' then ''Docker build: image tagged '' @ quoted ''app:latest''
      else if prefix ''deploy'' step then ''Deploy: rollout completed, healthcheck OK''
      else if step = ''install-deps'' then ''Dependencies installed successfully''
      else if step = ''checkout'' then ''Checked out repository''
      else if step = ''build-artifact'' then ''Build artifact created: dist/app.zip''
      else ''Step completed'')"

section \<open>The run engine\<close>

text \<open>
  \<^verbatim>\<open>_simulate_pipeline\<close>. The \<^verbatim>\<open>for\<close> loop is \<open>steps_loop\<close>, recursive on the steps that
  are left; it says whether it left through the \<^verbatim>\<open>return\<close> of the failure branch or
  ran to its end. The run dictionary is mutated in place in the source and passed along
  here; every write to a document serialises it, so no write shares it. Time passes only
  in \<^verbatim>\<open>time.sleep\<close>, and by exactly the time asked.

  The engine has no \<^verbatim>\<open>try\<close>: an exception of \<^verbatim>\<open>_write_log\<close> ends the function, and with it
  the thread, at the line that raised it. That is the result \<open>Inl\<close>, with the exception,
  the run and the world as they are at that moment; \<open>Inr\<close> is the function returning.
\<close>

datatype loop_exit = Returned | Fell_through

fun steps_loop ::
  "(nat \<Rightarrow> draws) \<Rightarrow> rat \<Rightarrow> nat \<Rightarrow> string list \<Rightarrow> run \<Rightarrow> world
     \<Rightarrow> (error \<times> run \<times> world) + (loop_exit \<times> run \<times> world)"
where
  "steps_loop rnd start i [] r w = Inr (Fell_through, r, w)"
| "steps_loop rnd start i (step # rest) r w =
     (let r = r\<lparr>current_step := Some step\<rparr>;
          w = save_current_snapshot r w
      in case write_log (run_id r) (utcnow_iso w, ''Step '' @ quoted step @ '' started'') w of
           Inl e \<Rightarrow> Inl (e, r, w)
         | Inr w \<Rightarrow>
     (let (tmin, tmax) = get_or STEP_TIME step (8 / 10, 18 / 10);
          w = sleep (uniform tmin tmax (u_sleep (rnd i))) w
      in case write_log (run_id r) (utcnow_iso w, simulate_step_output step (n_out (rnd i))) w of
           Inl e \<Rightarrow> Inl (e, r, w)
         | Inr w \<Rightarrow>
     (let fail_prob = get_or STEP_FAIL_PROB step (10 / 100)
      in if u_fail (rnd i) < fail_prob then
           (let r = r\<lparr>status := ''failed''\<rparr>;
                r = r\<lparr>finished_at := Some (utcnow_iso w)\<rparr>;
                r = r\<lparr>duration_s := Some (py_int (clock w - start))\<rparr>
            in case write_log (run_id r) (utcnow_iso w, ''Step '' @ quoted step @ '' FAILED'') w of
                 Inl e \<Rightarrow> Inl (e, r, w)
               | Inr w \<Rightarrow>
           (case write_log (run_id r)
                   (utcnow_iso w, ''Run '' @ run_id r @ '' finished with status=failed'') w of
              Inl e \<Rightarrow> Inl (e, r, w)
            | Inr w \<Rightarrow>
           (let r = r\<lparr>current_step := None\<rparr>;
                w = save_current_snapshot r w;
                w = append_history r w
            in Inr (Returned, r, w))))
         else
           (case write_log (run_id r) (utcnow_iso w, ''Step '' @ quoted step @ '' OK'') w of
              Inl e \<Rightarrow> Inl (e, r, w)
            | Inr w \<Rightarrow> steps_loop rnd start (Suc i) rest r w))))"

definition simulate_pipeline ::
  "(nat \<Rightarrow> draws) \<Rightarrow> run \<Rightarrow> world \<Rightarrow> (error \<times> run \<times> world) + (run \<times> world)"
where
  "simulate_pipeline rnd r w =
     (let start = clock w
      in case write_log (run_id r)
                (utcnow_iso w, ''Run '' @ run_id r @ '' started (job='' @ job r @ '')'') w of
           Inl e \<Rightarrow> Inl (e, r, w)
         | Inr w \<Rightarrow>
     (case steps_loop rnd start 0 (steps r) r w of
        Inl raised \<Rightarrow> Inl raised
      | Inr (Returned, r, w) \<Rightarrow> Inr (r, w)
      | Inr (Fell_through, r, w) \<Rightarrow>
          (let r = r\<lparr>status := ''success''\<rparr>;
               r = r\<lparr>finished_at := Some (utcnow_iso w)\<rparr>;
               r = r\<lparr>duration_s := Some (py_int (clock w - start))\<rparr>;
               r = r\<lparr>current_step := None\<rparr>
           in case write_log (run_id r)
                     (utcnow_iso w, ''Run '' @ run_id r @ '' finished with status=success'') w of
                Inl e \<Rightarrow> Inl (e, r, w)
              | Inr w \<Rightarrow>
          (let w = save_current_snapshot r w;
               w = append_history r w
           in Inr (r, w)))))"

section \<open>Starting a run\<close>

text \<open>
  \<^verbatim>\<open>api_run\<close>. The request is what \<^verbatim>\<open>request.get_json(silent=True)\<close> returns: \<open>None\<close>
  for a missing or unreadable body, else the body's object, of which only string values
  are modelled (a key that is absent or \<^verbatim>\<open>null\<close> maps to \<open>None\<close>). \<^verbatim>\<open>x or y\<close> is \<open>y\<close> when
  \<open>x\<close> is \<^verbatim>\<open>None\<close>, an empty object or an empty string. The identifier is the input
  \<open>uid\<close>, for \<^verbatim>\<open>uuid.uuid4().hex[:8]\<close>.

  The handler returns the response and hands the run to a thread; \<open>api_run\<close> returns the
  response, the run handed over and the world, \<open>start_run\<close> lets the thread run to its end
  with nothing else in between and pairs the response with what became of the thread (an
  exception in the thread does not reach the handler, which has answered).
\<close>

record response =
  message :: string
  resp_run_id :: string

definition api_run ::
  "(string \<rightharpoonup> string) option \<Rightarrow> string \<Rightarrow> world \<Rightarrow> response \<times> run \<times> world"
where
  "api_run body uid w =
     (let data = (case body of None \<Rightarrow> Map.empty | Some d \<Rightarrow> d);
          job = (case data ''job'' of None \<Rightarrow> ''app-ci''
                 | Some j \<Rightarrow> if j = [] then ''app-ci'' else j);
          steps = get_or PIPELINE job [''checkout'', ''unit-tests'', ''deploy-staging''];
          r = \<lparr>run_id = uid, job = job, status = ''running'', steps = steps,
               current_step = (if steps \<noteq> [] then Some (hd steps) else None),
               started_at = utcnow_iso w, finished_at = None, duration_s = None\<rparr>;
          w = save_current_snapshot r w
      in (\<lparr>message = ''started'', resp_run_id = run_id r\<rparr>, r, w))"

definition start_run ::
  "(nat \<Rightarrow> draws) \<Rightarrow> (string \<rightharpoonup> string) option \<Rightarrow> string \<Rightarrow> world
     \<Rightarrow> response \<times> ((error \<times> run \<times> world) + (run \<times> world))"
where
  "start_run rnd body uid w =
     (case api_run body uid w of (resp, r, w) \<Rightarrow> (resp, simulate_pipeline rnd r w))"

section \<open>The stats aggregator\<close>

text \<open>
  \<^verbatim>\<open>_calc_stats\<close>, of the history document and the clock \<open>now\<close>
  (\<^verbatim>\<open>datetime.utcnow()\<close>). A stamp \<open>t\<close> parses to the time \<open>of_int t\<close>; the calendar date
  of a time is its day number. \<^verbatim>\<open>h.get("finished_at")\<close> is true for a stamp and false for
  \<^verbatim>\<open>None\<close>; \<^verbatim>\<open>h.get("duration_s")\<close> is true for a number other than zero.
\<close>

record stats =
  deploys_today :: nat
  success_rate :: rat
  cfr :: rat
  avg_duration :: int
  mttr_minutes :: int

definition date_of :: "rat \<Rightarrow> int" where
  "date_of t = \<lfloor>t / 86400\<rfloor>"

definition finished_dt :: "run \<Rightarrow> int" where
  "finished_dt h = the (finished_at h)"

definition truthy_duration :: "run \<Rightarrow> bool" where
  "truthy_duration h = (case duration_s h of None \<Rightarrow> False | Some d \<Rightarrow> d \<noteq> 0)"

definition later_successes :: "run list \<Rightarrow> run \<Rightarrow> run list" where
  "later_successes last7 h =
     filter (\<lambda>x. job x = job h \<and> finished_at x \<noteq> None \<and> finished_dt h < finished_dt x
                 \<and> status x = ''success'') last7"

fun mttr_loop :: "run list \<Rightarrow> run list \<Rightarrow> rat list \<Rightarrow> rat list" where
  "mttr_loop last7 [] mttrs = mttrs"
| "mttr_loop last7 (h # hs) mttrs =
     (if status h \<noteq> ''failed'' then mttr_loop last7 hs mttrs
      else
        (let t_fail = finished_dt h;
             later = later_successes last7 h
         in if later \<noteq> [] then
              (let t_succ = min_list (map finished_dt later)
               in mttr_loop last7 hs (mttrs @ [truediv (total_seconds (t_succ - t_fail)) 60]))
            else mttr_loop last7 hs mttrs))"

definition calc_stats :: "rat \<Rightarrow> run list \<Rightarrow> stats" where
  "calc_stats now hist =
     (if hist = [] then
        \<lparr>deploys_today = 0, success_rate = 0, cfr = 0, avg_duration = 0, mttr_minutes = 0\<rparr>
      else
        (let finished = filter (\<lambda>h. finished_at h \<noteq> None) hist;
             today = filter (\<lambda>h. date_of (of_int (finished_dt h)) = date_of now) finished;
             last7 = filter (\<lambda>h. now - of_int (finished_dt h) \<le> 7 * 86400) finished;
             total = length last7;
             failures = length (filter (\<lambda>h. status h = ''failed'') last7);
             successes = length (filter (\<lambda>h. status h = ''success'') last7);
             ds = map (\<lambda>h. the (duration_s h)) (filter truthy_duration last7);
             avg_dur = (if ds \<noteq> []
                        then py_int (truediv (of_int (sum_list ds)) (of_nat (length ds)))
                        else 0);
             mttrs = mttr_loop last7 last7 [];
             mttr = (if mttrs \<noteq> []
                     then py_int (truediv (py_sum mttrs) (of_nat (length mttrs)))
                     else 0)
         in \<lparr>deploys_today = length today,
             success_rate = (if total \<noteq> 0
                             then py_round1 (fmul (truediv (of_nat successes) (of_nat total)) 100)
                             else 0),
             cfr = (if total \<noteq> 0
                    then py_round1 (fmul (truediv (of_nat failures) (of_nat total)) 100)
                    else 0),
             avg_duration = avg_dur,
             mttr_minutes = mttr\<rparr>))"

section \<open>Reading the journal\<close>

text \<open>
  What a stretch of the journal holds: the runs written to the snapshot store (the run an
  upsert puts in front), the lines written to one run's log, and the documents written to
  the history.
\<close>

fun snapshot_of :: "io_event \<Rightarrow> run list" where
  "snapshot_of (Saved_current doc) = take 1 doc"
| "snapshot_of (Saved_history doc) = []"
| "snapshot_of (Wrote_log rid line) = []"

fun log_line_of :: "string \<Rightarrow> io_event \<Rightarrow> log_line list" where
  "log_line_of rid (Saved_current doc) = []"
| "log_line_of rid (Saved_history doc) = []"
| "log_line_of rid (Wrote_log rid' line) = (if rid' = rid then [line] else [])"

fun history_write_of :: "io_event \<Rightarrow> run list list" where
  "history_write_of (Saved_current doc) = []"
| "history_write_of (Saved_history doc) = [doc]"
| "history_write_of (Wrote_log rid line) = []"

definition snapshots :: "io_event list \<Rightarrow> run list" where
  "snapshots evs = concat (map snapshot_of evs)"

definition log_lines :: "string \<Rightarrow> io_event list \<Rightarrow> log_line list" where
  "log_lines rid evs = concat (map (log_line_of rid) evs)"

definition log_texts :: "string \<Rightarrow> io_event list \<Rightarrow> string list" where
  "log_texts rid evs = map snd (log_lines rid evs)"

definition history_writes :: "io_event list \<Rightarrow> run list list" where
  "history_writes evs = concat (map history_write_of evs)"

text \<open>
  The rolls and the writes of a run, step by step: whether the steps from position \<open>i\<close> on
  all pass their roll, how long they sleep, and the texts that passing steps and a failing
  step log.
\<close>

definition step_fails :: "draws \<Rightarrow> string \<Rightarrow> bool" where
  "step_fails d step = (u_fail d < get_or STEP_FAIL_PROB step (10 / 100))"

fun all_pass :: "(nat \<Rightarrow> draws) \<Rightarrow> nat \<Rightarrow> string list \<Rightarrow> bool" where
  "all_pass rnd i [] = True"
| "all_pass rnd i (p # ps) = (\<not> step_fails (rnd i) p \<and> all_pass rnd (Suc i) ps)"

definition step_sleep :: "draws \<Rightarrow> string \<Rightarrow> rat" where
  "step_sleep d step =
     (case get_or STEP_TIME step (8 / 10, 18 / 10) of (tmin, tmax) \<Rightarrow> uniform tmin tmax (u_sleep d))"

fun slept :: "(nat \<Rightarrow> draws) \<Rightarrow> nat \<Rightarrow> string list \<Rightarrow> rat" where
  "slept rnd i [] = 0"
| "slept rnd i (p # ps) = step_sleep (rnd i) p + slept rnd (Suc i) ps"

fun passed_texts :: "(nat \<Rightarrow> draws) \<Rightarrow> nat \<Rightarrow> string list \<Rightarrow> string list" where
  "passed_texts rnd i [] = []"
| "passed_texts rnd i (p # ps) =
     [''Step '' @ quoted p @ '' started'',
      simulate_step_output p (n_out (rnd i)),
      ''Step '' @ quoted p @ '' OK''] @ passed_texts rnd (Suc i) ps"

definition failed_texts :: "draws \<Rightarrow> string \<Rightarrow> string \<Rightarrow> string list" where
  "failed_texts d rid s =
     [''Step '' @ quoted s @ '' started'',
      simulate_step_output s (n_out d),
      ''Step '' @ quoted s @ '' FAILED'',
      ''Run '' @ rid @ '' finished with status=failed'']"

section \<open>The metrics as the specification words them\<close>

text \<open>
  The window is the history entries with a finish stamp within the last seven days. A failed
  run of the window recovers with the earliest successful run of the same job in the window
  that finished later; failed runs that have no such run are left out.

  In exact arithmetic: \<open>exact_rate\<close> is the share of a status in the window, times 100;
  \<open>round_half_even\<close> and \<open>round_half_up\<close> of ten times a number give its rounding to one
  decimal; \<open>int_mean\<close> is the integer part of the mean of a list, 0 for the empty list;
  \<open>exact_mttr\<close> is the integer mean of the recovery times in minutes.

  In floating point, as the code computes: \<open>float_rate\<close> is the share times 100, rounded to
  one decimal; \<open>recovery_minutes\<close> is the recovery time in minutes; \<open>float_int_mean\<close> is the
  integer part of the mean of a list, 0 for the empty list; \<open>spec_mttr\<close> is that mean of the
  recovery times.
\<close>

definition in_window :: "rat \<Rightarrow> run \<Rightarrow> bool" where
  "in_window now h = (case finished_at h of None \<Rightarrow> False | Some t \<Rightarrow> now - of_int t \<le> 7 * 86400)"

definition window :: "rat \<Rightarrow> run list \<Rightarrow> run list" where
  "window now hist = filter (in_window now) hist"

definition count_status :: "string \<Rightarrow> run list \<Rightarrow> nat" where
  "count_status st win = length (filter (\<lambda>h. status h = st) win)"

definition exact_rate :: "string \<Rightarrow> run list \<Rightarrow> rat" where
  "exact_rate st win = of_nat (count_status st win) / of_nat (length win) * 100"

definition round_half_up :: "rat \<Rightarrow> int" where
  "round_half_up x = \<lfloor>x + 1 / 2\<rfloor>"

definition float_rate :: "string \<Rightarrow> run list \<Rightarrow> rat" where
  "float_rate st win =
     py_round1 (fmul (truediv (of_nat (count_status st win)) (of_nat (length win))) 100)"

definition int_mean :: "rat list \<Rightarrow> int" where
  "int_mean xs = (if xs = [] then 0 else \<lfloor>sum_list xs / of_nat (length xs)\<rfloor>)"

definition float_int_mean :: "rat list \<Rightarrow> int" where
  "float_int_mean xs =
     (if xs = [] then 0 else py_int (truediv (py_sum xs) (of_nat (length xs))))"







section \<open>Example values\<close>

definition example_run :: "string \<Rightarrow> string \<Rightarrow> string \<Rightarrow> int option \<Rightarrow> int option \<Rightarrow> run" where
  "example_run rid j st fin dur =
     \<lparr>run_id = rid, job = j, status = st, steps = [''checkout''], current_step = None,
      started_at = 0, finished_at = fin, duration_s = dur\<rparr>"

definition example_app_run :: run where
  "example_app_run = \<lparr>run_id = ''abcd1234'', job = ''app-ci'', status = ''running'',
     steps = [''checkout'', ''install-deps'', ''lint'', ''unit-tests'', ''build-artifact'', ''deploy-staging''],
     current_step = Some ''checkout'', started_at = 1000, finished_at = None, duration_s = None\<rparr>"

definition example_world :: world where
  "example_world = \<lparr>builds = [], history = [], logs = (\<lambda>_. []), clock = 1000, journal = []\<rparr>"

definition example_rnd :: "nat \<Rightarrow> draws" where
  "example_rnd i = \<lparr>u_sleep = 1 / 2, n_out = 7, u_fail = (if i = 1 then 0 else 1 / 2)\<rparr>"

text \<open>The string of the one code point U+D800, a surrogate.\<close>

definition lone_surrogate :: string where
  "lone_surrogate = [CHR 0xED, CHR 0xA0, CHR 0x80]"

definition example_surrogate_run :: run where
  "example_surrogate_run = \<lparr>run_id = ''abcd1234'', job = lone_surrogate, status = ''running'',
     steps = [''checkout'', ''unit-tests'', ''deploy-staging''],
     current_step = Some ''checkout'', started_at = 1000, finished_at = None, duration_s = None\<rparr>"

section \<open>The snapshot store: cap, distinct ids, frame\<close>

lemma upsert_current_length: "length (upsert_current r cur) \<le> 100"
  by (simp add: upsert_current_def)

lemma upsert_current_hd: "upsert_current r cur = r # take 99 (filter (\<lambda>x. run_id x \<noteq> run_id r) cur)"
  by (simp add: upsert_current_def take_Cons')

lemma upsert_current_distinct:
  assumes "distinct (map run_id cur)"
  shows "distinct (map run_id (upsert_current r cur))"
proof -
  let ?rest = "filter (\<lambda>x. run_id x \<noteq> run_id r) cur"
  have "distinct (map run_id ?rest)"
    using assms by (simp add: distinct_map_filter)
  moreover have "run_id r \<notin> set (map run_id ?rest)"
    by auto
  ultimately have "distinct (map run_id (r # ?rest))"
    by simp
  then have "distinct (take 100 (map run_id (r # ?rest)))"
    by (rule distinct_take)
  then show ?thesis
    by (simp add: upsert_current_def take_map)
qed

lemma current_state_distinct: "current_state cur \<Longrightarrow> distinct (map run_id cur)"
  by (induction rule: current_state.induct) (simp_all add: upsert_current_distinct)

lemma current_state_length: "current_state cur \<Longrightarrow> length cur \<le> 100"
  by (induction rule: current_state.induct) (simp_all add: upsert_current_length)

text \<open>
  C4. After \<^verbatim>\<open>_save_current_snapshot(run)\<close> the current-runs list has at most 100 entries,
  the run is its first entry, and the run is the only entry with its id (an earlier entry
  with that id is gone). If no two entries had the same id before, none have after; so in
  every state of the list (the empty list and what upserts make of it) the list after the
  upsert has no two entries with the same id, and is a state of the list again.
\<close>

theorem upsert_current_bounded_distinct_front:
  "length (builds (save_current_snapshot r w)) \<le> 100
   \<and> builds (save_current_snapshot r w) \<noteq> []
   \<and> hd (builds (save_current_snapshot r w)) = r
   \<and> filter (\<lambda>x. run_id x = run_id r) (builds (save_current_snapshot r w)) = [r]
   \<and> (distinct (map run_id (builds w)) \<longrightarrow>
        distinct (map run_id (builds (save_current_snapshot r w))))
   \<and> (current_state (builds w) \<longrightarrow>
        distinct (map run_id (builds (save_current_snapshot r w)))
        \<and> current_state (builds (save_current_snapshot r w)))"
proof -
  let ?b = "upsert_current r (builds w)"
  have b: "builds (save_current_snapshot r w) = ?b"
    by (simp add: save_current_snapshot_def save_current_def)
  have d: "distinct (map run_id (builds w)) \<longrightarrow> distinct (map run_id ?b)"
    by (simp add: upsert_current_distinct)
  have h: "?b = r # take 99 (filter (\<lambda>x. run_id x \<noteq> run_id r) (builds w))"
    by (rule upsert_current_hd)
  have "filter (\<lambda>x. run_id x = run_id r)
          (take 99 (filter (\<lambda>x. run_id x \<noteq> run_id r) (builds w))) = []"
    by (auto simp: filter_empty_conv dest: in_set_takeD)
  then have f: "filter (\<lambda>x. run_id x = run_id r) ?b = [r]"
    by (simp add: h)
  have c: "current_state (builds w) \<longrightarrow> distinct (map run_id ?b) \<and> current_state ?b"
    by (simp add: current_state_distinct upsert_current_distinct current_state.upsert)
  have l: "length ?b \<le> 100"
    by (rule upsert_current_length)
  have n: "?b \<noteq> [] \<and> hd ?b = r"
    by (simp add: h)
  show ?thesis
    unfolding b using l n f d c by blast
qed

theorem upsert_current_bounded_distinct_front_witness:
  "current_state
     (builds (save_current_snapshot (example_run ''a'' ''app-ci'' ''running'' None None)
        example_world))
   \<and> builds (save_current_snapshot (example_run ''a'' ''app-ci'' ''failed'' (Some 5) (Some 1))
        (save_current_snapshot (example_run ''a'' ''app-ci'' ''running'' None None)
           example_world))
      = [example_run ''a'' ''app-ci'' ''failed'' (Some 5) (Some 1)]
   \<and> distinct (map run_id
       (builds (save_current_snapshot (example_run ''a'' ''app-ci'' ''failed'' (Some 5) (Some 1))
         (save_current_snapshot (example_run ''a'' ''app-ci'' ''running'' None None)
            example_world))))"
proof -
  let ?w1 = "save_current_snapshot (example_run ''a'' ''app-ci'' ''running'' None None)
               example_world"
  have "current_state (upsert_current (example_run ''a'' ''app-ci'' ''running'' None None) [])"
    by (rule current_state.upsert) (rule current_state.empty)
  then have s: "current_state (builds ?w1)"
    by (simp add: save_current_snapshot_def save_current_def example_world_def)
  from upsert_current_bounded_distinct_front[of
      "example_run ''a'' ''app-ci'' ''failed'' (Some 5) (Some 1)" ?w1] s
  show ?thesis
    by (simp add: save_current_snapshot_def save_current_def example_world_def
        upsert_current_def example_run_def)
qed

text \<open>
  C9. An upsert keeps, after the run it puts in front, the first 99 of the entries with
  another id, as they were and in their order: the kept entries are a subsequence of the
  old list, all entries with another id are kept when there are at most 99 of them, and an
  entry of the old list that is gone had the run's id or stood beyond the cap.
\<close>

theorem upsert_current_frame:
  "tl (upsert_current r cur) = take 99 (filter (\<lambda>x. run_id x \<noteq> run_id r) cur)
   \<and> subseq (tl (upsert_current r cur)) cur
   \<and> (length (filter (\<lambda>x. run_id x \<noteq> run_id r) cur) \<le> 99 \<longrightarrow>
        tl (upsert_current r cur) = filter (\<lambda>x. run_id x \<noteq> run_id r) cur)
   \<and> (\<forall>x \<in> set cur. x \<in> set (upsert_current r cur) \<or> run_id x = run_id r
         \<or> x \<in> set (drop 99 (filter (\<lambda>x. run_id x \<noteq> run_id r) cur)))"
proof -
  let ?f = "filter (\<lambda>x. run_id x \<noteq> run_id r) cur"
  have t: "tl (upsert_current r cur) = take 99 ?f"
    by (simp add: upsert_current_hd)
  have "prefix (take 99 ?f) ?f"
    by (rule take_is_prefix)
  then have "subseq (take 99 ?f) ?f"
    by (rule prefix_imp_subseq)
  then have s: "subseq (take 99 ?f) cur"
    using subseq_filter_left subseq_order.order_trans by blast
  have m: "\<forall>x \<in> set cur. x \<in> set (upsert_current r cur) \<or> run_id x = run_id r
             \<or> x \<in> set (drop 99 ?f)"
  proof
    fix x assume x: "x \<in> set cur"
    show "x \<in> set (upsert_current r cur) \<or> run_id x = run_id r \<or> x \<in> set (drop 99 ?f)"
    proof (cases "run_id x = run_id r")
      case True
      then show ?thesis by simp
    next
      case False
      with x have "x \<in> set ?f" by simp
      then have "x \<in> set (take 99 ?f @ drop 99 ?f)" by simp
      then show ?thesis unfolding set_append by (auto simp: upsert_current_hd)
    qed
  qed
  show ?thesis using t s m by simp
qed

theorem upsert_current_frame_witness:
  "length (filter (\<lambda>x. run_id x \<noteq> run_id (example_run ''a'' ''app-ci'' ''failed'' (Some 5) (Some 1)))
         [example_run ''b'' ''api-ci'' ''running'' None None,
          example_run ''a'' ''app-ci'' ''running'' None None,
          example_run ''c'' ''app-ci'' ''success'' (Some 3) (Some 2)]) \<le> 99
   \<and> tl (upsert_current (example_run ''a'' ''app-ci'' ''failed'' (Some 5) (Some 1))
         [example_run ''b'' ''api-ci'' ''running'' None None,
          example_run ''a'' ''app-ci'' ''running'' None None,
          example_run ''c'' ''app-ci'' ''success'' (Some 3) (Some 2)])
      = [example_run ''b'' ''api-ci'' ''running'' None None,
         example_run ''c'' ''app-ci'' ''success'' (Some 3) (Some 2)]"
  using upsert_current_frame[of "example_run ''a'' ''app-ci'' ''failed'' (Some 5) (Some 1)"
      "[example_run ''b'' ''api-ci'' ''running'' None None,
        example_run ''a'' ''app-ci'' ''running'' None None,
        example_run ''c'' ''app-ci'' ''success'' (Some 3) (Some 2)]"]
  by (simp add: example_run_def)

section \<open>The stats aggregator: empty history\<close>

text \<open>
  C7. Over an empty history the stats are the five zeros; the function returns a value,
  there being no error branch.
\<close>

theorem calc_stats_empty:
  "calc_stats now [] =
     \<lparr>deploys_today = 0, success_rate = 0, cfr = 0, avg_duration = 0, mttr_minutes = 0\<rparr>"
  by (simp add: calc_stats_def)

section \<open>The run engine: what one run writes\<close>

lemma save_current_snapshot_fields [simp]:
  "builds (save_current_snapshot r w) = upsert_current r (builds w)"
  "history (save_current_snapshot r w) = history w"
  "logs (save_current_snapshot r w) = logs w"
  "clock (save_current_snapshot r w) = clock w"
  "journal (save_current_snapshot r w) = journal w @ [Saved_current (upsert_current r (builds w))]"
  by (simp_all add: save_current_snapshot_def save_current_def)

lemma append_log_fields [simp]:
  "builds (append_log rid line w) = builds w"
  "history (append_log rid line w) = history w"
  "logs (append_log rid line w) = (logs w)(rid := logs w rid @ [line])"
  "clock (append_log rid line w) = clock w"
  "journal (append_log rid line w) = journal w @ [Wrote_log rid line]"
  by (simp_all add: append_log_def)

lemma write_log_ok:
  "utf8_encodable rid \<Longrightarrow> utf8_encodable text
     \<Longrightarrow> write_log rid (stamp, text) w = Inr (append_log rid (stamp, text) w)"
  by (simp add: write_log_def)

lemma write_log_raises:
  "\<not> (utf8_encodable rid \<and> utf8_encodable text)
     \<Longrightarrow> write_log rid (stamp, text) w = Inl UnicodeEncodeError"
  by (simp add: write_log_def)

subsection \<open>The lines the engine writes can be encoded when the names in them can\<close>

lemma utf8_encodable_Cons:
  "utf8_encodable (a # s) = ((s \<noteq> [] \<longrightarrow> \<not> surrogate_lead a (hd s)) \<and> utf8_encodable s)"
  by (cases s) simp_all

lemma utf8_encodable_append:
  "utf8_encodable (s @ t)
     = (utf8_encodable s \<and> utf8_encodable t
        \<and> (s \<noteq> [] \<and> t \<noteq> [] \<longrightarrow> \<not> surrogate_lead (last s) (hd t)))"
proof (induction s rule: utf8_encodable.induct)
  case (1 a b s)
  then show ?case by auto
next
  case (2 a)
  show ?case by (simp add: utf8_encodable_Cons) blast
next
  case 3
  show ?case by simp
qed

lemma ascii_simps [simp]:
  "ascii []"
  "ascii (c # s) = (of_char c < (128 :: nat) \<and> ascii s)"
  "ascii (s @ t) = (ascii s \<and> ascii t)"
  by (simp_all add: ascii_def)

lemma ascii_not_lead: "of_char a < (128 :: nat) \<Longrightarrow> \<not> surrogate_lead a b"
  by (auto simp: surrogate_lead_def)

lemma ascii_not_trail: "of_char b < (128 :: nat) \<Longrightarrow> \<not> surrogate_lead a b"
  by (simp add: surrogate_lead_def)

lemma ascii_encodable: "ascii s \<Longrightarrow> utf8_encodable s"
  by (induction s rule: utf8_encodable.induct) (simp_all add: ascii_not_lead)

lemma ascii_last: "ascii s \<Longrightarrow> s \<noteq> [] \<Longrightarrow> of_char (last s) < (128 :: nat)"
  by (simp add: ascii_def list_all_iff)

lemma ascii_hd: "ascii s \<Longrightarrow> s \<noteq> [] \<Longrightarrow> of_char (hd s) < (128 :: nat)"
  by (simp add: ascii_def list_all_iff)

lemma ascii_append_encodable:
  assumes "ascii p"
  shows "utf8_encodable (p @ s) = utf8_encodable s"
proof (cases "p = []")
  case True
  then show ?thesis by simp
next
  case False
  with assms have "\<not> surrogate_lead (last p) b" for b
    by (intro ascii_not_lead ascii_last)
  with assms show ?thesis
    by (simp add: utf8_encodable_append ascii_encodable)
qed

lemma encodable_append_ascii:
  assumes "ascii q"
  shows "utf8_encodable (s @ q) = utf8_encodable s"
proof (cases "q = []")
  case True
  then show ?thesis by simp
next
  case False
  with assms have "\<not> surrogate_lead a (hd q)" for a
    by (intro ascii_not_trail ascii_hd)
  with assms show ?thesis
    by (simp add: utf8_encodable_append ascii_encodable)
qed

lemma ascii_digit_char: "d < 10 \<Longrightarrow> of_char (digit_char d) < (128 :: nat)"
  by (simp add: digit_char_def)

lemma ascii_str_nat: "ascii (str_nat n)"
proof (induction n rule: str_nat.induct)
  case (1 n)
  show ?case
  proof (cases "n < 10")
    case True
    then show ?thesis by (subst str_nat.simps) (simp add: ascii_digit_char)
  next
    case False
    with 1 show ?thesis by (subst str_nat.simps) (simp add: ascii_digit_char)
  qed
qed

lemma ascii_str_int: "ascii (str_int i)"
  by (simp add: str_int_def ascii_str_nat)

lemma ascii_simulate_step_output: "ascii (simulate_step_output step n)"
  by (simp add: simulate_step_output_def Let_def quoted_def ascii_str_int)

lemma encodable_between:
  assumes "ascii p" and "ascii q"
  shows "utf8_encodable (p @ s @ q) = utf8_encodable s"
  using assms by (simp add: ascii_append_encodable encodable_append_ascii)

lemma encodable_texts [simp]:
  "utf8_encodable (simulate_step_output step n)"
  "utf8_encodable (''Step '' @ quoted step @ '' started'') = utf8_encodable step"
  "utf8_encodable (''Step '' @ quoted step @ '' OK'') = utf8_encodable step"
  "utf8_encodable (''Step '' @ quoted step @ '' FAILED'') = utf8_encodable step"
  "utf8_encodable (''Run '' @ rid @ '' finished with status=failed'') = utf8_encodable rid"
  "utf8_encodable (''Run '' @ rid @ '' finished with status=success'') = utf8_encodable rid"
  "utf8_encodable (''Run '' @ rid @ '' started (job='' @ j @ '')'')
     = (utf8_encodable rid \<and> utf8_encodable j)"
proof -
  show "utf8_encodable (simulate_step_output step n)"
    by (rule ascii_encodable) (rule ascii_simulate_step_output)
  have a: "ascii (''Step '' @ [CHR 0x27])" "ascii (CHR 0x27 # '' started'')"
    "ascii (CHR 0x27 # '' OK'')" "ascii (CHR 0x27 # '' FAILED'')"
    "ascii ''Run ''" "ascii '' finished with status=failed''"
    "ascii '' finished with status=success''" "ascii '' started (job=''" "ascii '')''"
    by simp_all
  show "utf8_encodable (''Step '' @ quoted step @ '' started'') = utf8_encodable step"
    using encodable_between[OF a(1) a(2), of step] by (simp add: quoted_def)
  show "utf8_encodable (''Step '' @ quoted step @ '' OK'') = utf8_encodable step"
    using encodable_between[OF a(1) a(3), of step] by (simp add: quoted_def)
  show "utf8_encodable (''Step '' @ quoted step @ '' FAILED'') = utf8_encodable step"
    using encodable_between[OF a(1) a(4), of step] by (simp add: quoted_def)
  show "utf8_encodable (''Run '' @ rid @ '' finished with status=failed'') = utf8_encodable rid"
    using encodable_between[OF a(5) a(6), of rid] by simp
  show "utf8_encodable (''Run '' @ rid @ '' finished with status=success'') = utf8_encodable rid"
    using encodable_between[OF a(5) a(7), of rid] by simp
  have m: "utf8_encodable ('' started (job='' @ j @ '')'') = utf8_encodable j"
    using encodable_between[OF a(8) a(9), of j] by simp
  have "utf8_encodable (''Run '' @ rid @ '' started (job='' @ j @ '')'')
          = utf8_encodable (rid @ ('' started (job='' @ j @ '')''))"
    using ascii_append_encodable[OF a(5), of "rid @ ('' started (job='' @ j @ '')'')"] by simp
  also have "\<dots> = (utf8_encodable rid \<and> utf8_encodable ('' started (job='' @ j @ '')''))"
    unfolding utf8_encodable_append[of rid] by (simp add: ascii_not_trail)
  finally show "utf8_encodable (''Run '' @ rid @ '' started (job='' @ j @ '')'')
     = (utf8_encodable rid \<and> utf8_encodable j)"
    unfolding m .
qed

subsection \<open>One step, the steps that pass, the step that fails\<close>

lemma sleep_fields [simp]:
  "builds (sleep d w) = builds w"
  "history (sleep d w) = history w"
  "logs (sleep d w) = logs w"
  "clock (sleep d w) = clock w + d"
  "journal (sleep d w) = journal w"
  by (simp_all add: sleep_def)

lemma append_history_fields [simp]:
  "builds (append_history e w) = builds w"
  "history (append_history e w) = history w @ [e]"
  "logs (append_history e w) = logs w"
  "clock (append_history e w) = clock w"
  "journal (append_history e w) = journal w @ [Saved_history (history w @ [e])]"
  by (simp_all add: append_history_def save_history_def)

lemma upsert_current_again:
  assumes "run_id r' = run_id r"
  shows "upsert_current r' (upsert_current r cur) = upsert_current r' cur"
proof -
  let ?f = "filter (\<lambda>x. run_id x \<noteq> run_id r) cur"
  have "filter (\<lambda>x. run_id x \<noteq> run_id r) (take 99 ?f) = take 99 ?f"
    by (rule filter_True) (auto dest: in_set_takeD)
  then show ?thesis
    using assms by (simp add: upsert_current_hd)
qed

lemma snapshots_append [simp]: "snapshots (xs @ ys) = snapshots xs @ snapshots ys"
  by (simp add: snapshots_def)

lemma log_lines_append [simp]: "log_lines rid (xs @ ys) = log_lines rid xs @ log_lines rid ys"
  by (simp add: log_lines_def)

lemma history_writes_append [simp]: "history_writes (xs @ ys) = history_writes xs @ history_writes ys"
  by (simp add: history_writes_def)

lemma steps_loop_pass:
  assumes "\<not> step_fails (rnd i) p" and "utf8_encodable (run_id r)" and "utf8_encodable p"
  shows "\<exists>w1 e1. steps_loop rnd start i (p # rest) r w
             = steps_loop rnd start (Suc i) rest (r\<lparr>current_step := Some p\<rparr>) w1
        \<and> builds w1 = upsert_current (r\<lparr>current_step := Some p\<rparr>) (builds w)
        \<and> history w1 = history w
        \<and> clock w1 = clock w + step_sleep (rnd i) p
        \<and> journal w1 = journal w @ e1
        \<and> (\<forall>rid. logs w1 rid = logs w rid @ log_lines rid e1)
        \<and> snapshots e1 = [r\<lparr>current_step := Some p\<rparr>]
        \<and> log_texts (run_id r) e1 = passed_texts rnd i [p]
        \<and> history_writes e1 = []"
proof -
  define r1 where "r1 = r\<lparr>current_step := Some p\<rparr>"
  define wa where "wa = save_current_snapshot r1 w"
  define wb where "wb = append_log (run_id r) (utcnow_iso wa, ''Step '' @ quoted p @ '' started'') wa"
  define wc where "wc = sleep (step_sleep (rnd i) p) wb"
  define wd where "wd = append_log (run_id r) (utcnow_iso wc, simulate_step_output p (n_out (rnd i))) wc"
  define we where "we = append_log (run_id r) (utcnow_iso wd, ''Step '' @ quoted p @ '' OK'') wd"
  define e1 where "e1 = [Saved_current (upsert_current r1 (builds w)),
      Wrote_log (run_id r) (utcnow_iso wa, ''Step '' @ quoted p @ '' started''),
      Wrote_log (run_id r) (utcnow_iso wc, simulate_step_output p (n_out (rnd i))),
      Wrote_log (run_id r) (utcnow_iso wd, ''Step '' @ quoted p @ '' OK'')]"
  have eq: "steps_loop rnd start i (p # rest) r w = steps_loop rnd start (Suc i) rest r1 we"
    using assms
    by (simp add: Let_def split_def step_fails_def step_sleep_def write_log_ok
        r1_def wa_def wb_def wc_def wd_def we_def del: append.simps)
  have b: "builds we = upsert_current r1 (builds w)"
    by (simp add: we_def wd_def wc_def wb_def wa_def)
  have h: "history we = history w"
    by (simp add: we_def wd_def wc_def wb_def wa_def)
  have c: "clock we = clock w + step_sleep (rnd i) p"
    by (simp add: we_def wd_def wc_def wb_def wa_def)
  have j: "journal we = journal w @ e1"
    by (simp add: we_def wd_def wc_def wb_def wa_def e1_def)
  have l: "\<forall>rid. logs we rid = logs w rid @ log_lines rid e1"
    by (simp add: we_def wd_def wc_def wb_def wa_def e1_def log_lines_def)
  have s: "snapshots e1 = [r1]"
    by (simp add: e1_def snapshots_def upsert_current_hd)
  have t: "log_texts (run_id r) e1 = passed_texts rnd i [p]"
    by (simp add: e1_def log_texts_def log_lines_def)
  have hw: "history_writes e1 = []"
    by (simp add: e1_def history_writes_def)
  show ?thesis
    using eq b h c j l s t hw unfolding r1_def by blast
qed


lemma steps_loop_fail:
  assumes "step_fails (rnd i) s" and "utf8_encodable (run_id r)" and "utf8_encodable s"
  shows "\<exists>r' w' e1. steps_loop rnd start i (s # rest) r w = Inr (Returned, r', w')
        \<and> r' = r\<lparr>status := ''failed'', finished_at := Some \<lfloor>clock w'\<rfloor>,
                  duration_s := Some (py_int (clock w' - start)), current_step := None\<rparr>
        \<and> builds w' = upsert_current r' (builds w)
        \<and> history w' = history w @ [r']
        \<and> clock w' = clock w + step_sleep (rnd i) s
        \<and> journal w' = journal w @ e1
        \<and> (\<forall>rid. logs w' rid = logs w rid @ log_lines rid e1)
        \<and> snapshots e1 = [r\<lparr>current_step := Some s\<rparr>, r']
        \<and> log_texts (run_id r) e1 = failed_texts (rnd i) (run_id r) s
        \<and> history_writes e1 = [history w @ [r']]
        \<and> (\<exists>e0 doc. e1 = e0 @ [Saved_current doc, Saved_history (history w @ [r'])]
              \<and> take 1 doc = [r'] \<and> history_writes e0 = [] \<and> snapshots e0 = [r\<lparr>current_step := Some s\<rparr>])"
proof -
  define r1 where "r1 = r\<lparr>current_step := Some s\<rparr>"
  define wa where "wa = save_current_snapshot r1 w"
  define wb where "wb = append_log (run_id r) (utcnow_iso wa, ''Step '' @ quoted s @ '' started'') wa"
  define wc where "wc = sleep (step_sleep (rnd i) s) wb"
  define wd where "wd = append_log (run_id r) (utcnow_iso wc, simulate_step_output s (n_out (rnd i))) wc"
  define r2 where "r2 = r1\<lparr>status := ''failed'', finished_at := Some (utcnow_iso wd),
                          duration_s := Some (py_int (clock wd - start))\<rparr>"
  define we where "we = append_log (run_id r) (utcnow_iso wd, ''Step '' @ quoted s @ '' FAILED'') wd"
  define wf where "wf = append_log (run_id r)
                          (utcnow_iso we, ''Run '' @ run_id r @ '' finished with status=failed'') we"
  define r3 where "r3 = r2\<lparr>current_step := None\<rparr>"
  define wg where "wg = save_current_snapshot r3 wf"
  define wh where "wh = append_history r3 wg"
  define e0 where "e0 = [Saved_current (upsert_current r1 (builds w)),
      Wrote_log (run_id r) (utcnow_iso wa, ''Step '' @ quoted s @ '' started''),
      Wrote_log (run_id r) (utcnow_iso wc, simulate_step_output s (n_out (rnd i))),
      Wrote_log (run_id r) (utcnow_iso wd, ''Step '' @ quoted s @ '' FAILED''),
      Wrote_log (run_id r) (utcnow_iso we, ''Run '' @ run_id r @ '' finished with status=failed'')]"
  define doc where "doc = upsert_current r3 (builds wf)"
  define e1 where "e1 = e0 @ [Saved_current doc, Saved_history (history w @ [r3])]"
  have eq: "steps_loop rnd start i (s # rest) r w = Inr (Returned, r3, wh)"
    using assms
    by (simp add: Let_def split_def step_fails_def step_sleep_def write_log_ok
        r1_def wa_def wb_def wc_def wd_def we_def wf_def wg_def wh_def r2_def r3_def
        del: append.simps)
  have ck: "clock wh = clock wd"
    by (simp add: wh_def wg_def wf_def we_def)
  have r3: "r3 = r\<lparr>status := ''failed'', finished_at := Some \<lfloor>clock wh\<rfloor>,
                  duration_s := Some (py_int (clock wh - start)), current_step := None\<rparr>"
    by (simp add: ck r3_def r2_def r1_def utcnow_iso_def)
  have id: "run_id r3 = run_id r1"
    by (simp add: r3_def r2_def)
  have b: "builds wh = upsert_current r3 (builds w)"
    by (simp add: wh_def wg_def wf_def we_def wd_def wc_def wb_def wa_def upsert_current_again[OF id])
  have h: "history wh = history w @ [r3]"
    by (simp add: wh_def wg_def wf_def we_def wd_def wc_def wb_def wa_def)
  have c: "clock wh = clock w + step_sleep (rnd i) s"
    by (simp add: wh_def wg_def wf_def we_def wd_def wc_def wb_def wa_def)
  have j: "journal wh = journal w @ e1"
    by (simp add: wh_def wg_def wf_def we_def wd_def wc_def wb_def wa_def e1_def e0_def doc_def)
  have l: "\<forall>rid. logs wh rid = logs w rid @ log_lines rid e1"
    by (simp add: wh_def wg_def wf_def we_def wd_def wc_def wb_def wa_def e1_def e0_def log_lines_def)
  have s0: "snapshots e0 = [r1]"
    by (simp add: e0_def snapshots_def upsert_current_hd)
  have d: "take 1 doc = [r3]"
    by (simp add: doc_def upsert_current_hd)
  have s: "snapshots e1 = [r1, r3]"
    using s0 d by (simp add: e1_def snapshots_def)
  have t: "log_texts (run_id r) e1 = failed_texts (rnd i) (run_id r) s"
    by (simp add: e1_def e0_def log_texts_def log_lines_def failed_texts_def)
  have hw0: "history_writes e0 = []"
    by (simp add: e0_def history_writes_def)
  have hw: "history_writes e1 = [history w @ [r3]]"
    using hw0 by (simp add: e1_def history_writes_def)
  have tail: "\<exists>e0 doc. e1 = e0 @ [Saved_current doc, Saved_history (history w @ [r3])]
              \<and> take 1 doc = [r3] \<and> history_writes e0 = [] \<and> snapshots e0 = [r1]"
    using e1_def d hw0 s0 by blast
  show ?thesis
    apply (rule exI[of _ r3], rule exI[of _ wh], rule exI[of _ e1])
    using eq r3 b h c j l s t hw tail unfolding r1_def by simp
qed


lemma log_texts_append [simp]: "log_texts rid (xs @ ys) = log_texts rid xs @ log_texts rid ys"
  by (simp add: log_texts_def)

lemma passed_texts_append:
  "passed_texts rnd i (xs @ ys) = passed_texts rnd i xs @ passed_texts rnd (i + length xs) ys"
  by (induction xs arbitrary: i) simp_all

lemma slept_append: "slept rnd i (xs @ ys) = slept rnd i xs + slept rnd (i + length xs) ys"
  by (induction xs arbitrary: i) simp_all

lemma steps_loop_passes:
  assumes "all_pass rnd i pre" and "utf8_encodable (run_id r)" and "\<forall>p \<in> set pre. utf8_encodable p"
  shows "\<exists>r1 w1 e1. steps_loop rnd start i (pre @ rest) r w
             = steps_loop rnd start (i + length pre) rest r1 w1
        \<and> r1 = (if pre = [] then r else r\<lparr>current_step := Some (last pre)\<rparr>)
        \<and> builds w1 = (if pre = [] then builds w else upsert_current r1 (builds w))
        \<and> history w1 = history w
        \<and> clock w1 = clock w + slept rnd i pre
        \<and> journal w1 = journal w @ e1
        \<and> (\<forall>rid. logs w1 rid = logs w rid @ log_lines rid e1)
        \<and> snapshots e1 = map (\<lambda>p. r\<lparr>current_step := Some p\<rparr>) pre
        \<and> log_texts (run_id r) e1 = passed_texts rnd i pre
        \<and> history_writes e1 = []"
  using assms
proof (induction pre arbitrary: r w i)
  case Nil
  show ?case
    by (rule exI[of _ r], rule exI[of _ w], rule exI[of _ "[]"])
       (simp add: snapshots_def log_texts_def log_lines_def history_writes_def)
next
  case (Cons p ps)
  let ?rA = "r\<lparr>current_step := Some p\<rparr>"
  from Cons.prems have p: "\<not> step_fails (rnd i) p" and ps: "all_pass rnd (Suc i) ps"
    and rid: "utf8_encodable (run_id r)" and ep: "utf8_encodable p"
    and eps: "\<forall>q \<in> set ps. utf8_encodable q"
    by simp_all
  from rid have ridA: "utf8_encodable (run_id (r\<lparr>current_step := Some p\<rparr>))"
    by simp
  from steps_loop_pass[where rnd=rnd and i=i and p=p and start=start and rest="ps @ rest" and r=r and w=w,
      OF p rid ep]
  obtain wA eA where
    A: "steps_loop rnd start i (p # ps @ rest) r w = steps_loop rnd start (Suc i) (ps @ rest) ?rA wA"
    and bA: "builds wA = upsert_current ?rA (builds w)"
    and hA: "history wA = history w"
    and cA: "clock wA = clock w + step_sleep (rnd i) p"
    and jA: "journal wA = journal w @ eA"
    and lA: "\<forall>rid. logs wA rid = logs w rid @ log_lines rid eA"
    and sA: "snapshots eA = [?rA]"
    and tA: "log_texts (run_id r) eA = passed_texts rnd i [p]"
    and hwA: "history_writes eA = []"
    by blast
  from Cons.IH[OF ps ridA eps, of wA]
  obtain r1 w1 e1 where
    B: "steps_loop rnd start (Suc i) (ps @ rest) ?rA wA
          = steps_loop rnd start (Suc i + length ps) rest r1 w1"
    and r1: "r1 = (if ps = [] then ?rA else ?rA\<lparr>current_step := Some (last ps)\<rparr>)"
    and b1: "builds w1 = (if ps = [] then builds wA else upsert_current r1 (builds wA))"
    and h1: "history w1 = history wA"
    and c1: "clock w1 = clock wA + slept rnd (Suc i) ps"
    and j1: "journal w1 = journal wA @ e1"
    and l1: "\<forall>rid. logs w1 rid = logs wA rid @ log_lines rid e1"
    and s1: "snapshots e1 = map (\<lambda>q. ?rA\<lparr>current_step := Some q\<rparr>) ps"
    and t1: "log_texts (run_id ?rA) e1 = passed_texts rnd (Suc i) ps"
    and hw1: "history_writes e1 = []"
    by blast
  have r1': "r1 = r\<lparr>current_step := Some (last (p # ps))\<rparr>"
    using r1 by simp
  have id: "run_id r1 = run_id ?rA"
    using r1 by simp
  have b: "builds w1 = upsert_current r1 (builds w)"
    using b1 bA r1 upsert_current_again[OF id, of "builds w"] by (simp split: if_splits)
  have c: "clock w1 = clock w + slept rnd i (p # ps)"
    using c1 cA by simp
  have j: "journal w1 = journal w @ (eA @ e1)"
    using j1 jA by simp
  have l: "\<forall>rid. logs w1 rid = logs w rid @ log_lines rid (eA @ e1)"
    using l1 lA by simp
  have s: "snapshots (eA @ e1) = map (\<lambda>q. r\<lparr>current_step := Some q\<rparr>) (p # ps)"
    using s1 sA by simp
  have t: "log_texts (run_id r) (eA @ e1) = passed_texts rnd i (p # ps)"
    using t1 tA by simp
  have hw: "history_writes (eA @ e1) = []"
    using hw1 hwA by simp
  have eq: "steps_loop rnd start i ((p # ps) @ rest) r w
              = steps_loop rnd start (i + length (p # ps)) rest r1 w1"
    using A B by simp
  show ?case
    apply (rule exI[of _ r1], rule exI[of _ w1], rule exI[of _ "eA @ e1"])
    using eq r1' b h1 hA c j l s t hw by simp
qed


lemma steps_loop_fails_at:
  assumes pre: "all_pass rnd i pre" and s: "step_fails (rnd (i + length pre)) s"
    and rid: "utf8_encodable (run_id r)" and epre: "\<forall>p \<in> set pre. utf8_encodable p"
    and es: "utf8_encodable s"
  shows "\<exists>r' w' evs. steps_loop rnd start i (pre @ s # post) r w = Inr (Returned, r', w')
        \<and> r' = r\<lparr>status := ''failed'', finished_at := Some \<lfloor>clock w'\<rfloor>,
                  duration_s := Some (py_int (clock w' - start)), current_step := None\<rparr>
        \<and> builds w' = upsert_current r' (builds w)
        \<and> history w' = history w @ [r']
        \<and> clock w' = clock w + slept rnd i (pre @ [s])
        \<and> journal w' = journal w @ evs
        \<and> (\<forall>rid. logs w' rid = logs w rid @ log_lines rid evs)
        \<and> snapshots evs = map (\<lambda>p. r\<lparr>current_step := Some p\<rparr>) (pre @ [s]) @ [r']
        \<and> log_texts (run_id r) evs
            = passed_texts rnd i pre @ failed_texts (rnd (i + length pre)) (run_id r) s
        \<and> history_writes evs = [history w @ [r']]
        \<and> (\<exists>e0 doc. evs = e0 @ [Saved_current doc, Saved_history (history w @ [r'])]
              \<and> take 1 doc = [r'] \<and> history_writes e0 = []
              \<and> snapshots e0 = map (\<lambda>p. r\<lparr>current_step := Some p\<rparr>) (pre @ [s]))"
proof -
  from steps_loop_passes[OF pre rid epre, of start "s # post" w]
  obtain r1 w1 e1 where
    A: "steps_loop rnd start i (pre @ s # post) r w
          = steps_loop rnd start (i + length pre) (s # post) r1 w1"
    and r1: "r1 = (if pre = [] then r else r\<lparr>current_step := Some (last pre)\<rparr>)"
    and b1: "builds w1 = (if pre = [] then builds w else upsert_current r1 (builds w))"
    and h1: "history w1 = history w"
    and c1: "clock w1 = clock w + slept rnd i pre"
    and j1: "journal w1 = journal w @ e1"
    and l1: "\<forall>rid. logs w1 rid = logs w rid @ log_lines rid e1"
    and s1: "snapshots e1 = map (\<lambda>p. r\<lparr>current_step := Some p\<rparr>) pre"
    and t1: "log_texts (run_id r) e1 = passed_texts rnd i pre"
    and hw1: "history_writes e1 = []"
    by blast
  have rid1: "utf8_encodable (run_id r1)"
    using r1 rid by simp
  from steps_loop_fail[where rnd=rnd and i="i + length pre" and s=s and start=start
      and rest=post and r=r1 and w=w1, OF s rid1 es]
  obtain r' w' e2 e0 doc where
    B: "steps_loop rnd start (i + length pre) (s # post) r1 w1 = Inr (Returned, r', w')"
    and r': "r' = r1\<lparr>status := ''failed'', finished_at := Some \<lfloor>clock w'\<rfloor>,
                  duration_s := Some (py_int (clock w' - start)), current_step := None\<rparr>"
    and b2: "builds w' = upsert_current r' (builds w1)"
    and h2: "history w' = history w1 @ [r']"
    and c2: "clock w' = clock w1 + step_sleep (rnd (i + length pre)) s"
    and j2: "journal w' = journal w1 @ e2"
    and l2: "\<forall>rid. logs w' rid = logs w1 rid @ log_lines rid e2"
    and s2: "snapshots e2 = [r1\<lparr>current_step := Some s\<rparr>, r']"
    and t2: "log_texts (run_id r1) e2 = failed_texts (rnd (i + length pre)) (run_id r1) s"
    and hw2: "history_writes e2 = [history w1 @ [r']]"
    and e2: "e2 = e0 @ [Saved_current doc, Saved_history (history w1 @ [r'])]"
    and d: "take 1 doc = [r']"
    and hw0: "history_writes e0 = []"
    and s0: "snapshots e0 = [r1\<lparr>current_step := Some s\<rparr>]"
    by blast
  have id1: "run_id r1 = run_id r"
    using r1 by simp
  have rr: "r' = r\<lparr>status := ''failed'', finished_at := Some \<lfloor>clock w'\<rfloor>,
                  duration_s := Some (py_int (clock w' - start)), current_step := None\<rparr>"
    using r' r1 by simp
  have rs: "r1\<lparr>current_step := Some s\<rparr> = r\<lparr>current_step := Some s\<rparr>"
    using r1 by simp
  have id: "run_id r' = run_id r1"
    using r' by simp
  have b: "builds w' = upsert_current r' (builds w)"
    using b2 b1 upsert_current_again[OF id, of "builds w"] by (simp split: if_splits)
  have c: "clock w' = clock w + slept rnd i (pre @ [s])"
    using c1 c2 by (simp add: slept_append)
  have j: "journal w' = journal w @ (e1 @ e2)"
    using j1 j2 by simp
  have l: "\<forall>rid. logs w' rid = logs w rid @ log_lines rid (e1 @ e2)"
    using l1 l2 by simp
  have sn: "snapshots (e1 @ e2) = map (\<lambda>p. r\<lparr>current_step := Some p\<rparr>) (pre @ [s]) @ [r']"
    using s1 s2 rs by simp
  have t: "log_texts (run_id r) (e1 @ e2)
            = passed_texts rnd i pre @ failed_texts (rnd (i + length pre)) (run_id r) s"
    using t1 t2 id1 by simp
  have hw: "history_writes (e1 @ e2) = [history w @ [r']]"
    using hw1 hw2 h1 by simp
  have tail: "\<exists>e0 doc. e1 @ e2 = e0 @ [Saved_current doc, Saved_history (history w @ [r'])]
              \<and> take 1 doc = [r'] \<and> history_writes e0 = []
              \<and> snapshots e0 = map (\<lambda>p. r\<lparr>current_step := Some p\<rparr>) (pre @ [s])"
    apply (rule exI[of _ "e1 @ e0"], rule exI[of _ doc])
    using e2 d hw0 hw1 s0 s1 rs h1 by simp
  have eq: "steps_loop rnd start i (pre @ s # post) r w = Inr (Returned, r', w')"
    using A B by simp
  show ?thesis
    apply (rule exI[of _ r'], rule exI[of _ w'], rule exI[of _ "e1 @ e2"])
    using eq rr b h2 h1 c j l sn t hw tail by simp
qed

lemma first_failure:
  "all_pass rnd i ss
   \<or> (\<exists>pre s post. ss = pre @ s # post \<and> all_pass rnd i pre \<and> step_fails (rnd (i + length pre)) s)"
proof (induction ss arbitrary: i)
  case Nil
  show ?case by simp
next
  case (Cons p ps)
  show ?case
  proof (cases "step_fails (rnd i) p")
    case True
    then have "p # ps = [] @ p # ps \<and> all_pass rnd i [] \<and> step_fails (rnd (i + length ([]::string list))) p"
      by simp
    then show ?thesis by blast
  next
    case False
    from Cons.IH[of "Suc i"] show ?thesis
    proof
      assume "all_pass rnd (Suc i) ps"
      with False show ?thesis by simp
    next
      assume "\<exists>pre s post. ps = pre @ s # post \<and> all_pass rnd (Suc i) pre
                \<and> step_fails (rnd (Suc i + length pre)) s"
      then obtain pre s post where "ps = pre @ s # post" "all_pass rnd (Suc i) pre"
        "step_fails (rnd (Suc i + length pre)) s" by blast
      with False have "p # ps = (p # pre) @ s # post \<and> all_pass rnd i (p # pre)
          \<and> step_fails (rnd (i + length (p # pre))) s"
        by simp
      then show ?thesis by blast
    qed
  qed
qed


lemma simulate_pipeline_fails:
  assumes st: "steps r = pre @ s # post"
    and pre: "all_pass rnd 0 pre" and s: "step_fails (rnd (length pre)) s"
    and rid: "utf8_encodable (run_id r)" and jb: "utf8_encodable (job r)"
    and enc: "\<forall>p \<in> set (pre @ [s]). utf8_encodable p"
  shows "\<exists>r' w' evs. simulate_pipeline rnd r w = Inr (r', w')
        \<and> r' = r\<lparr>status := ''failed'', finished_at := Some \<lfloor>clock w'\<rfloor>,
                  duration_s := Some (py_int (clock w' - clock w)), current_step := None\<rparr>
        \<and> builds w' = upsert_current r' (builds w)
        \<and> history w' = history w @ [r']
        \<and> clock w' = clock w + slept rnd 0 (pre @ [s])
        \<and> journal w' = journal w @ evs
        \<and> (\<forall>rid. logs w' rid = logs w rid @ log_lines rid evs)
        \<and> snapshots evs = map (\<lambda>p. r\<lparr>current_step := Some p\<rparr>) (pre @ [s]) @ [r']
        \<and> log_texts (run_id r) evs
            = (''Run '' @ run_id r @ '' started (job='' @ job r @ '')'')
              # passed_texts rnd 0 pre @ failed_texts (rnd (length pre)) (run_id r) s
        \<and> history_writes evs = [history w @ [r']]
        \<and> (\<exists>e0 doc. evs = e0 @ [Saved_current doc, Saved_history (history w @ [r'])]
              \<and> take 1 doc = [r'] \<and> history_writes e0 = []
              \<and> snapshots e0 = map (\<lambda>p. r\<lparr>current_step := Some p\<rparr>) (pre @ [s]))"
proof -
  define line where
    "line = (utcnow_iso w, ''Run '' @ run_id r @ '' started (job='' @ job r @ '')'')"
  define w0 where "w0 = append_log (run_id r) line w"
  from s have s': "step_fails (rnd (0 + length pre)) s"
    by simp
  from enc have epre: "\<forall>p \<in> set pre. utf8_encodable p" and es: "utf8_encodable s"
    by simp_all
  from steps_loop_fails_at[OF pre s' rid epre es, of "clock w" post w0]
  obtain r' w' evs e0 doc where
    A: "steps_loop rnd (clock w) 0 (pre @ s # post) r w0 = Inr (Returned, r', w')"
    and r': "r' = r\<lparr>status := ''failed'', finished_at := Some \<lfloor>clock w'\<rfloor>,
                  duration_s := Some (py_int (clock w' - clock w)), current_step := None\<rparr>"
    and b: "builds w' = upsert_current r' (builds w0)"
    and h: "history w' = history w0 @ [r']"
    and c: "clock w' = clock w0 + slept rnd 0 (pre @ [s])"
    and j: "journal w' = journal w0 @ evs"
    and l: "\<forall>rid. logs w' rid = logs w0 rid @ log_lines rid evs"
    and sn: "snapshots evs = map (\<lambda>p. r\<lparr>current_step := Some p\<rparr>) (pre @ [s]) @ [r']"
    and t: "log_texts (run_id r) evs
            = passed_texts rnd 0 pre @ failed_texts (rnd (0 + length pre)) (run_id r) s"
    and hw: "history_writes evs = [history w0 @ [r']]"
    and e: "evs = e0 @ [Saved_current doc, Saved_history (history w0 @ [r'])]"
    and d: "take 1 doc = [r']"
    and hw0: "history_writes e0 = []"
    and s0: "snapshots e0 = map (\<lambda>p. r\<lparr>current_step := Some p\<rparr>) (pre @ [s])"
    by blast
  let ?ev = "Wrote_log (run_id r) line"
  have eq: "simulate_pipeline rnd r w = Inr (r', w')"
    using A st rid jb
    by (simp add: simulate_pipeline_def Let_def write_log_ok w0_def line_def del: append.simps)
  have j': "journal w' = journal w @ (?ev # evs)"
    using j by (simp add: w0_def)
  have l': "\<forall>rid. logs w' rid = logs w rid @ log_lines rid (?ev # evs)"
    using l by (simp add: w0_def log_lines_def)
  have sn': "snapshots (?ev # evs) = map (\<lambda>p. r\<lparr>current_step := Some p\<rparr>) (pre @ [s]) @ [r']"
    using sn by (simp add: snapshots_def)
  have t': "log_texts (run_id r) (?ev # evs)
            = (''Run '' @ run_id r @ '' started (job='' @ job r @ '')'')
              # passed_texts rnd 0 pre @ failed_texts (rnd (length pre)) (run_id r) s"
    using t by (simp add: log_texts_def log_lines_def line_def)
  have hw': "history_writes (?ev # evs) = [history w @ [r']]"
    using hw by (simp add: history_writes_def w0_def)
  have tail: "\<exists>e0 doc. ?ev # evs = e0 @ [Saved_current doc, Saved_history (history w @ [r'])]
              \<and> take 1 doc = [r'] \<and> history_writes e0 = []
              \<and> snapshots e0 = map (\<lambda>p. r\<lparr>current_step := Some p\<rparr>) (pre @ [s])"
    apply (rule exI[of _ "?ev # e0"], rule exI[of _ doc])
    using e d hw0 s0 by (simp add: w0_def history_writes_def snapshots_def)
  have b': "builds w' = upsert_current r' (builds w)"
    using b by (simp add: w0_def)
  have h': "history w' = history w @ [r']"
    using h by (simp add: w0_def)
  have c': "clock w' = clock w + slept rnd 0 (pre @ [s])"
    using c by (simp add: w0_def)
  show ?thesis
    apply (rule exI[of _ r'], rule exI[of _ w'], rule exI[of _ "?ev # evs"])
    using eq r' b' h' c' j' l' sn' t' hw' tail by simp
qed

lemma simulate_pipeline_succeeds:
  assumes pre: "all_pass rnd 0 (steps r)"
    and rid: "utf8_encodable (run_id r)" and jb: "utf8_encodable (job r)"
    and enc: "\<forall>p \<in> set (steps r). utf8_encodable p"
  shows "\<exists>r' w' evs. simulate_pipeline rnd r w = Inr (r', w')
        \<and> r' = r\<lparr>status := ''success'', finished_at := Some \<lfloor>clock w'\<rfloor>,
                  duration_s := Some (py_int (clock w' - clock w)), current_step := None\<rparr>
        \<and> builds w' = upsert_current r' (builds w)
        \<and> history w' = history w @ [r']
        \<and> clock w' = clock w + slept rnd 0 (steps r)
        \<and> journal w' = journal w @ evs
        \<and> (\<forall>rid. logs w' rid = logs w rid @ log_lines rid evs)
        \<and> snapshots evs = map (\<lambda>p. r\<lparr>current_step := Some p\<rparr>) (steps r) @ [r']
        \<and> log_texts (run_id r) evs
            = (''Run '' @ run_id r @ '' started (job='' @ job r @ '')'')
              # passed_texts rnd 0 (steps r) @ [''Run '' @ run_id r @ '' finished with status=success'']
        \<and> history_writes evs = [history w @ [r']]
        \<and> (\<exists>e0 doc. evs = e0 @ [Saved_current doc, Saved_history (history w @ [r'])]
              \<and> take 1 doc = [r'] \<and> history_writes e0 = []
              \<and> snapshots e0 = map (\<lambda>p. r\<lparr>current_step := Some p\<rparr>) (steps r))"
proof -
  define line where
    "line = (utcnow_iso w, ''Run '' @ run_id r @ '' started (job='' @ job r @ '')'')"
  define w0 where "w0 = append_log (run_id r) line w"
  from steps_loop_passes[OF pre rid enc, of "clock w" "[]" w0]
  obtain r1 w1 e1 where
    A: "steps_loop rnd (clock w) 0 (steps r) r w0 = Inr (Fell_through, r1, w1)"
    and r1: "r1 = (if steps r = [] then r else r\<lparr>current_step := Some (last (steps r))\<rparr>)"
    and b1: "builds w1 = (if steps r = [] then builds w0 else upsert_current r1 (builds w0))"
    and h1: "history w1 = history w0"
    and c1: "clock w1 = clock w0 + slept rnd 0 (steps r)"
    and j1: "journal w1 = journal w0 @ e1"
    and l1: "\<forall>rid. logs w1 rid = logs w0 rid @ log_lines rid e1"
    and s1: "snapshots e1 = map (\<lambda>p. r\<lparr>current_step := Some p\<rparr>) (steps r)"
    and t1: "log_texts (run_id r) e1 = passed_texts rnd 0 (steps r)"
    and hw1: "history_writes e1 = []"
    by auto
  define r' where "r' = r1\<lparr>status := ''success'', finished_at := Some (utcnow_iso w1),
      duration_s := Some (py_int (clock w1 - clock w)), current_step := None\<rparr>"
  define fin where
    "fin = (utcnow_iso w1, ''Run '' @ run_id r @ '' finished with status=success'')"
  define w2 where "w2 = append_log (run_id r) fin w1"
  define w3 where "w3 = save_current_snapshot r' w2"
  define w' where "w' = append_history r' w3"
  define doc where "doc = upsert_current r' (builds w1)"
  let ?ev = "Wrote_log (run_id r) line"
  let ?e0 = "?ev # e1 @ [Wrote_log (run_id r) fin]"
  let ?evs = "?e0 @ [Saved_current doc, Saved_history (history w @ [r'])]"
  have id1: "run_id r1 = run_id r"
    using r1 by simp
  have eq: "simulate_pipeline rnd r w = Inr (r', w')"
    using A id1 rid jb
    by (simp add: simulate_pipeline_def Let_def write_log_ok w0_def line_def r'_def fin_def w2_def
        w3_def w'_def del: append.simps)
  have ck: "clock w' = clock w1"
    by (simp add: w'_def w3_def w2_def)
  have rr: "r' = r\<lparr>status := ''success'', finished_at := Some \<lfloor>clock w'\<rfloor>,
                  duration_s := Some (py_int (clock w' - clock w)), current_step := None\<rparr>"
    using r1 by (simp add: r'_def ck utcnow_iso_def)
  have id: "run_id r' = run_id r1"
    by (simp add: r'_def)
  have b: "builds w' = upsert_current r' (builds w)"
    using b1 upsert_current_again[OF id, of "builds w"]
    by (simp add: w'_def w3_def w2_def w0_def split: if_splits)
  have h: "history w' = history w @ [r']"
    using h1 by (simp add: w'_def w3_def w2_def w0_def)
  have c: "clock w' = clock w + slept rnd 0 (steps r)"
    using c1 by (simp add: ck w0_def)
  have j: "journal w' = journal w @ ?evs"
    using j1 h1 by (simp add: w'_def w3_def w2_def w0_def doc_def)
  have l: "\<forall>rid. logs w' rid = logs w rid @ log_lines rid ?evs"
    using l1 by (simp add: w'_def w3_def w2_def w0_def log_lines_def)
  have d: "take 1 doc = [r']"
    by (simp add: doc_def upsert_current_hd)
  have s0: "snapshots ?e0 = map (\<lambda>p. r\<lparr>current_step := Some p\<rparr>) (steps r)"
    using s1 by (simp add: snapshots_def)
  have sn: "snapshots ?evs = map (\<lambda>p. r\<lparr>current_step := Some p\<rparr>) (steps r) @ [r']"
    using s1 d by (simp add: snapshots_def)
  have t: "log_texts (run_id r) ?evs
            = (''Run '' @ run_id r @ '' started (job='' @ job r @ '')'')
              # passed_texts rnd 0 (steps r) @ [''Run '' @ run_id r @ '' finished with status=success'']"
    using t1 by (simp add: log_texts_def log_lines_def line_def fin_def)
  have hw0: "history_writes ?e0 = []"
    using hw1 by (simp add: history_writes_def)
  have hw: "history_writes ?evs = [history w @ [r']]"
    using hw1 by (simp add: history_writes_def)
  have tail: "\<exists>e0 doc. ?evs = e0 @ [Saved_current doc, Saved_history (history w @ [r'])]
              \<and> take 1 doc = [r'] \<and> history_writes e0 = []
              \<and> snapshots e0 = map (\<lambda>p. r\<lparr>current_step := Some p\<rparr>) (steps r)"
    using d hw0 s0 by blast
  show ?thesis
    apply (rule exI[of _ r'], rule exI[of _ w'], rule exI[of _ ?evs])
    using eq rr b h c j l sn t hw tail by simp
qed

text \<open>
  C2. When the steps before position \<open>k\<close> pass their roll and the step \<open>s\<close> at position \<open>k\<close>
  fails it (the run's id, its job name and the names of the steps up to \<open>s\<close> being strings
  that UTF-8 encodes, so that the log takes their lines), the run ends failed: status \<open>failed\<close>, \<open>finished_at\<close> and \<open>duration_s\<close> set,
  \<open>current_step\<close> cleared; that run is upserted into the current-runs list and appended to
  the history, the history write being the last write of the run. Nothing of the steps
  after \<open>s\<close> happens: the snapshots written are those of the steps up to \<open>s\<close> and the final
  one, the log holds the lines of the steps up to \<open>s\<close> only, and the clock has advanced by
  the sleeps of those steps only.
\<close>

theorem simulate_pipeline_stops_at_failed_step:
  assumes "steps r = pre @ s # post"
    and "all_pass rnd 0 pre" and "step_fails (rnd (length pre)) s"
    and "utf8_encodable (run_id r)" and "utf8_encodable (job r)"
    and "\<forall>p \<in> set (pre @ [s]). utf8_encodable p"
  shows "\<exists>r' w' evs. simulate_pipeline rnd r w = Inr (r', w')
        \<and> r' = r\<lparr>status := ''failed'', finished_at := Some \<lfloor>clock w'\<rfloor>,
                  duration_s := Some (py_int (clock w' - clock w)), current_step := None\<rparr>
        \<and> builds w' = upsert_current r' (builds w)
        \<and> history w' = history w @ [r']
        \<and> clock w' = clock w + slept rnd 0 (pre @ [s])
        \<and> journal w' = journal w @ evs
        \<and> (\<forall>rid. logs w' rid = logs w rid @ log_lines rid evs)
        \<and> snapshots evs = map (\<lambda>p. r\<lparr>current_step := Some p\<rparr>) (pre @ [s]) @ [r']
        \<and> log_texts (run_id r) evs
            = (''Run '' @ run_id r @ '' started (job='' @ job r @ '')'')
              # passed_texts rnd 0 pre @ failed_texts (rnd (length pre)) (run_id r) s
        \<and> history_writes evs = [history w @ [r']]
        \<and> last evs = Saved_history (history w @ [r'])"
proof -
  from simulate_pipeline_fails[OF assms, of w]
  obtain r' w' evs e0 doc where
    f: "simulate_pipeline rnd r w = Inr (r', w')"
      "r' = r\<lparr>status := ''failed'', finished_at := Some \<lfloor>clock w'\<rfloor>,
                  duration_s := Some (py_int (clock w' - clock w)), current_step := None\<rparr>"
      "builds w' = upsert_current r' (builds w)"
      "history w' = history w @ [r']"
      "clock w' = clock w + slept rnd 0 (pre @ [s])"
      "journal w' = journal w @ evs"
      "\<forall>rid. logs w' rid = logs w rid @ log_lines rid evs"
      "snapshots evs = map (\<lambda>p. r\<lparr>current_step := Some p\<rparr>) (pre @ [s]) @ [r']"
      "log_texts (run_id r) evs
            = (''Run '' @ run_id r @ '' started (job='' @ job r @ '')'')
              # passed_texts rnd 0 pre @ failed_texts (rnd (length pre)) (run_id r) s"
      "history_writes evs = [history w @ [r']]"
    and e: "evs = e0 @ [Saved_current doc, Saved_history (history w @ [r'])]"
    by blast
  from e have "last evs = Saved_history (history w @ [r'])"
    by simp
  with f show ?thesis
    by blast
qed

theorem simulate_pipeline_stops_at_failed_step_witness:
  "steps example_app_run = [''checkout''] @ ''install-deps'' # [''lint'', ''unit-tests'', ''build-artifact'', ''deploy-staging'']
   \<and> all_pass example_rnd 0 [''checkout'']
   \<and> step_fails (example_rnd (length [''checkout''])) ''install-deps''
   \<and> utf8_encodable (run_id example_app_run) \<and> utf8_encodable (job example_app_run)
   \<and> utf8_encodable ''checkout'' \<and> utf8_encodable ''install-deps''
   \<and> (\<exists>r' w'. simulate_pipeline example_rnd example_app_run example_world = Inr (r', w')
        \<and> status r' = ''failed''
        \<and> map current_step (builds w') = [None]
        \<and> map snd (logs w' ''abcd1234'')
           = [''Run abcd1234 started (job=app-ci)'',
              ''Step '' @ quoted ''checkout'' @ '' started'',
              ''Checked out repository'',
              ''Step '' @ quoted ''checkout'' @ '' OK'',
              ''Step '' @ quoted ''install-deps'' @ '' started'',
              ''Dependencies installed successfully'',
              ''Step '' @ quoted ''install-deps'' @ '' FAILED'',
              ''Run abcd1234 finished with status=failed''])"
proof -
  have h1: "steps example_app_run = [''checkout''] @ ''install-deps'' # [''lint'', ''unit-tests'', ''build-artifact'', ''deploy-staging'']"
    by (simp add: example_app_run_def)
  have h2: "all_pass example_rnd 0 [''checkout'']"
    by (simp add: example_rnd_def step_fails_def get_or_def STEP_FAIL_PROB_def)
  have h3: "step_fails (example_rnd (length [''checkout''])) ''install-deps''"
    by (simp add: example_rnd_def step_fails_def get_or_def STEP_FAIL_PROB_def)
  have h4: "utf8_encodable (run_id example_app_run)"
    by (simp add: example_app_run_def surrogate_lead_def)
  have h5: "utf8_encodable (job example_app_run)"
    by (simp add: example_app_run_def surrogate_lead_def)
  have e1: "utf8_encodable ''checkout''" and e2: "utf8_encodable ''install-deps''"
    by (simp_all add: surrogate_lead_def)
  from e1 e2 have h6: "\<forall>p \<in> set ([''checkout''] @ [''install-deps'']). utf8_encodable p"
    by simp
  from simulate_pipeline_stops_at_failed_step[OF h1 h2 h3 h4 h5 h6, of example_world]
  obtain r' w' evs where
    eq: "simulate_pipeline example_rnd example_app_run example_world = Inr (r', w')"
    and r': "r' = example_app_run\<lparr>status := ''failed'', finished_at := Some \<lfloor>clock w'\<rfloor>,
        duration_s := Some (py_int (clock w' - clock example_world)), current_step := None\<rparr>"
    and b: "builds w' = upsert_current r' (builds example_world)"
    and l: "\<forall>rid. logs w' rid = logs example_world rid @ log_lines rid evs"
    and t: "log_texts (run_id example_app_run) evs
            = (''Run '' @ run_id example_app_run @ '' started (job='' @ job example_app_run @ '')'')
              # passed_texts example_rnd 0 [''checkout'']
              @ failed_texts (example_rnd (length [''checkout''])) (run_id example_app_run) ''install-deps''"
    by blast
  have st: "status r' = ''failed''" and cs: "current_step r' = None"
    using r' by simp_all
  have bs: "map current_step (builds w') = [None]"
    using b cs by (simp add: upsert_current_hd example_world_def)
  have id: "run_id example_app_run = ''abcd1234''"
    by (simp add: example_app_run_def)
  have "map snd (logs w' ''abcd1234'') = log_texts ''abcd1234'' evs"
    using l by (simp add: example_world_def log_texts_def)
  also have "\<dots> = [''Run abcd1234 started (job=app-ci)'',
          ''Step '' @ quoted ''checkout'' @ '' started'',
          ''Checked out repository'',
          ''Step '' @ quoted ''checkout'' @ '' OK'',
          ''Step '' @ quoted ''install-deps'' @ '' started'',
          ''Dependencies installed successfully'',
          ''Step '' @ quoted ''install-deps'' @ '' FAILED'',
          ''Run abcd1234 finished with status=failed'']"
    using t unfolding id
    by (simp add: example_app_run_def failed_texts_def simulate_step_output_def example_rnd_def)
  finally have lg: "map snd (logs w' ''abcd1234'') = [''Run abcd1234 started (job=app-ci)'',
          ''Step '' @ quoted ''checkout'' @ '' started'',
          ''Checked out repository'',
          ''Step '' @ quoted ''checkout'' @ '' OK'',
          ''Step '' @ quoted ''install-deps'' @ '' started'',
          ''Dependencies installed successfully'',
          ''Step '' @ quoted ''install-deps'' @ '' FAILED'',
          ''Run abcd1234 finished with status=failed'']" .
  have ex: "\<exists>r' w'. simulate_pipeline example_rnd example_app_run example_world = Inr (r', w')
        \<and> status r' = ''failed''
        \<and> map current_step (builds w') = [None]
        \<and> map snd (logs w' ''abcd1234'')
           = [''Run abcd1234 started (job=app-ci)'',
              ''Step '' @ quoted ''checkout'' @ '' started'',
              ''Checked out repository'',
              ''Step '' @ quoted ''checkout'' @ '' OK'',
              ''Step '' @ quoted ''install-deps'' @ '' started'',
              ''Dependencies installed successfully'',
              ''Step '' @ quoted ''install-deps'' @ '' FAILED'',
              ''Run abcd1234 finished with status=failed'']"
    apply (rule exI[of _ r'], rule exI[of _ w'])
    apply (intro conjI)
    apply (fact eq st bs lg)+
    done
  show ?thesis
    apply (intro conjI)
    apply (fact h1 h2 h3 h4 h5 e1 e2 ex)+
    done
qed

lemma simulate_pipeline_terminal:
  assumes rid: "utf8_encodable (run_id r)" and jb: "utf8_encodable (job r)"
    and enc: "\<forall>p \<in> set (steps r). utf8_encodable p"
  shows "\<exists>r' w' e0 doc. simulate_pipeline rnd r w = Inr (r', w')
     \<and> (status r' = ''success'' \<or> status r' = ''failed'')
     \<and> r' = r\<lparr>status := status r', finished_at := Some \<lfloor>clock w'\<rfloor>,
                  duration_s := Some (py_int (clock w' - clock w)), current_step := None\<rparr>
     \<and> builds w' = upsert_current r' (builds w)
     \<and> history w' = history w @ [r']
     \<and> journal w' = journal w @ e0 @ [Saved_current doc, Saved_history (history w @ [r'])]
     \<and> take 1 doc = [r']
     \<and> history_writes e0 = []
     \<and> (\<exists>ss. snapshots e0 = map (\<lambda>p. r\<lparr>current_step := Some p\<rparr>) ss)"
proof -
  from first_failure[of rnd 0 "steps r"] show ?thesis
  proof
    assume "all_pass rnd 0 (steps r)"
    from simulate_pipeline_succeeds[OF this rid jb enc, of w]
    obtain r' w' evs e0 doc where
      f: "simulate_pipeline rnd r w = Inr (r', w')"
      "r' = r\<lparr>status := ''success'', finished_at := Some \<lfloor>clock w'\<rfloor>,
                  duration_s := Some (py_int (clock w' - clock w)), current_step := None\<rparr>"
      "builds w' = upsert_current r' (builds w)"
      "history w' = history w @ [r']"
      "journal w' = journal w @ evs"
      "evs = e0 @ [Saved_current doc, Saved_history (history w @ [r'])]"
      "take 1 doc = [r']" "history_writes e0 = []"
      and sn: "snapshots e0 = map (\<lambda>p. r\<lparr>current_step := Some p\<rparr>) (steps r)"
      by blast
    from sn have "\<exists>ss. snapshots e0 = map (\<lambda>p. r\<lparr>current_step := Some p\<rparr>) ss"
      by blast
    with f show ?thesis
      apply (intro exI[of _ r'] exI[of _ w'] exI[of _ e0] exI[of _ doc])
      by simp
  next
    assume "\<exists>pre s post. steps r = pre @ s # post \<and> all_pass rnd 0 pre
              \<and> step_fails (rnd (0 + length pre)) s"
    then obtain pre s post where st: "steps r = pre @ s # post" and p: "all_pass rnd 0 pre"
      and s: "step_fails (rnd (length pre)) s"
      by auto
    from enc st have encps: "\<forall>p \<in> set (pre @ [s]). utf8_encodable p"
      by simp
    from simulate_pipeline_fails[OF st p s rid jb encps, of w]
    obtain r' w' evs e0 doc where
      f: "simulate_pipeline rnd r w = Inr (r', w')"
      "r' = r\<lparr>status := ''failed'', finished_at := Some \<lfloor>clock w'\<rfloor>,
                  duration_s := Some (py_int (clock w' - clock w)), current_step := None\<rparr>"
      "builds w' = upsert_current r' (builds w)"
      "history w' = history w @ [r']"
      "journal w' = journal w @ evs"
      "evs = e0 @ [Saved_current doc, Saved_history (history w @ [r'])]"
      "take 1 doc = [r']" "history_writes e0 = []"
      and sn: "snapshots e0 = map (\<lambda>p. r\<lparr>current_step := Some p\<rparr>) (pre @ [s])"
      by blast
    from sn have "\<exists>ss. snapshots e0 = map (\<lambda>p. r\<lparr>current_step := Some p\<rparr>) ss"
      by blast
    with f show ?thesis
      apply (intro exI[of _ r'] exI[of _ w'] exI[of _ e0] exI[of _ doc])
      by simp
  qed
qed

subsection \<open>The history entry of a run\<close>

text \<open>
  When every log line of the run can be written, the run writes the history exactly once,
  whatever the rolls: the write appends the run in its terminal state (status \<open>success\<close> or
  \<open>failed\<close>), it is the last write of the run and follows at once the snapshot of that
  terminal state; every snapshot written before carries the status the run started with,
  and none of them touches the history.
\<close>

lemma simulate_pipeline_history_once:
  assumes "utf8_encodable (run_id r)" and "utf8_encodable (job r)"
    and "\<forall>p \<in> set (steps r). utf8_encodable p"
  shows "\<exists>r' w' e0 doc. simulate_pipeline rnd r w = Inr (r', w')
     \<and> (status r' = ''success'' \<or> status r' = ''failed'')
     \<and> run_id r' = run_id r
     \<and> finished_at r' = Some \<lfloor>clock w'\<rfloor>
     \<and> history w' = history w @ [r']
     \<and> journal w' = journal w @ e0 @ [Saved_current doc, Saved_history (history w @ [r'])]
     \<and> take 1 doc = [r']
     \<and> history_writes e0 = []
     \<and> history_writes (e0 @ [Saved_current doc, Saved_history (history w @ [r'])])
          = [history w @ [r']]
     \<and> (\<forall>x \<in> set (snapshots e0). status x = status r \<and> finished_at x = finished_at r
            \<and> run_id x = run_id r)"
proof -
  from simulate_pipeline_terminal[OF assms, of rnd w]
  obtain r' w' e0 doc ss where
    eq: "simulate_pipeline rnd r w = Inr (r', w')"
    and st: "status r' = ''success'' \<or> status r' = ''failed''"
    and r': "r' = r\<lparr>status := status r', finished_at := Some \<lfloor>clock w'\<rfloor>,
                  duration_s := Some (py_int (clock w' - clock w)), current_step := None\<rparr>"
    and h: "history w' = history w @ [r']"
    and j: "journal w' = journal w @ e0 @ [Saved_current doc, Saved_history (history w @ [r'])]"
    and d: "take 1 doc = [r']"
    and hw: "history_writes e0 = []"
    and sn: "snapshots e0 = map (\<lambda>p. r\<lparr>current_step := Some p\<rparr>) ss"
    by blast
  have id: "run_id r' = run_id r"
    by (subst r') simp
  have fin: "finished_at r' = Some \<lfloor>clock w'\<rfloor>"
    by (subst r') simp
  have hw2: "history_writes (e0 @ [Saved_current doc, Saved_history (history w @ [r'])])
          = [history w @ [r']]"
    using hw by (simp add: history_writes_def)
  have all: "\<forall>x \<in> set (snapshots e0). status x = status r \<and> finished_at x = finished_at r
            \<and> run_id x = run_id r"
    unfolding sn by auto
  show ?thesis
    apply (intro exI[of _ r'] exI[of _ w'] exI[of _ e0] exI[of _ doc])
    using eq st id fin h j d hw hw2 all by simp
qed

text \<open>
  When the first log line cannot be written (the run's id or its job name holds a
  surrogate), the engine ends there, on the exception, with the run and the world as they
  were handed to it.
\<close>

lemma simulate_pipeline_raises:
  assumes "\<not> (utf8_encodable (run_id r) \<and> utf8_encodable (job r))"
  shows "simulate_pipeline rnd r w = Inl (UnicodeEncodeError, r, w)"
proof -
  from assms have "\<not> (utf8_encodable (run_id r)
      \<and> utf8_encodable (''Run '' @ run_id r @ '' started (job='' @ job r @ '')''))"
    by (simp del: append.simps)
  then have "write_log (run_id r)
      (utcnow_iso w, ''Run '' @ run_id r @ '' started (job='' @ job r @ '')'') w
      = Inl UnicodeEncodeError"
    by (rule write_log_raises)
  then show ?thesis
    by (simp add: simulate_pipeline_def del: append.simps)
qed

lemma lone_surrogate_not_encodable: "\<not> utf8_encodable lone_surrogate"
  by (simp add: lone_surrogate_def surrogate_lead_def)

text \<open>
  C3. A request for the job whose name is the one code point U+D800 is accepted: the run
  is created with the fallback steps, saved to the current-runs list as \<open>running\<close>, and
  handed to the engine. The engine's first log line holds the job name and cannot be
  encoded; \<^verbatim>\<open>_write_log\<close> raises \<^verbatim>\<open>UnicodeEncodeError\<close>, nothing catches it, and the thread
  ends. No entry for the run is ever appended to the history, there is no history write
  at all, and the run stays in the current-runs list with status \<open>running\<close>, where the claim
  has exactly one history entry for every run the engine drives.
\<close>

theorem start_run_surrogate_job_leaves_no_history:
  "start_run example_rnd (Some [''job'' \<mapsto> lone_surrogate]) ''abcd1234'' example_world
     = (\<lparr>message = ''started'', resp_run_id = ''abcd1234''\<rparr>,
        Inl (UnicodeEncodeError, example_surrogate_run,
             example_world\<lparr>builds := [example_surrogate_run],
                            journal := [Saved_current [example_surrogate_run]]\<rparr>))
   \<and> status example_surrogate_run = ''running''
   \<and> history (example_world\<lparr>builds := [example_surrogate_run],
                             journal := [Saved_current [example_surrogate_run]]\<rparr>) = []
   \<and> history_writes [Saved_current [example_surrogate_run]] = []"
proof -
  have a: "api_run (Some [''job'' \<mapsto> lone_surrogate]) ''abcd1234'' example_world
      = (\<lparr>message = ''started'', resp_run_id = ''abcd1234''\<rparr>, example_surrogate_run,
         example_world\<lparr>builds := [example_surrogate_run],
                        journal := [Saved_current [example_surrogate_run]]\<rparr>)"
    by (simp add: api_run_def Let_def lone_surrogate_def get_or_def PIPELINE_def
        example_surrogate_run_def example_world_def utcnow_iso_def save_current_snapshot_def
        save_current_def upsert_current_def)
  have j: "\<not> (utf8_encodable (run_id example_surrogate_run)
             \<and> utf8_encodable (job example_surrogate_run))"
    by (simp add: example_surrogate_run_def lone_surrogate_not_encodable)
  have "start_run example_rnd (Some [''job'' \<mapsto> lone_surrogate]) ''abcd1234'' example_world
     = (\<lparr>message = ''started'', resp_run_id = ''abcd1234''\<rparr>,
        Inl (UnicodeEncodeError, example_surrogate_run,
             example_world\<lparr>builds := [example_surrogate_run],
                            journal := [Saved_current [example_surrogate_run]]\<rparr>))"
    by (simp add: start_run_def a simulate_pipeline_raises[OF j])
  moreover have "status example_surrogate_run = ''running''"
    by (simp add: example_surrogate_run_def)
  moreover have "history (example_world\<lparr>builds := [example_surrogate_run],
                             journal := [Saved_current [example_surrogate_run]]\<rparr>) = []"
    by (simp add: example_world_def)
  moreover have "history_writes [Saved_current [example_surrogate_run]] = []"
    by (simp add: history_writes_def)
  ultimately show ?thesis
    by simp
qed

section \<open>Starting a run: the job and its steps\<close>

lemma PIPELINE_cases:
  "get_or PIPELINE j [''checkout'', ''unit-tests'', ''deploy-staging''] =
     (if j = ''app-ci'' then
        [''checkout'', ''install-deps'', ''lint'', ''unit-tests'', ''build-artifact'', ''deploy-staging'']
      else if j = ''api-ci'' then
        [''checkout'', ''install-deps'', ''unit-tests'', ''integration-tests'', ''security-scan'',
         ''docker-build'', ''deploy-prod'']
      else [''checkout'', ''unit-tests'', ''deploy-staging''])"
  by (simp add: get_or_def PIPELINE_def)

lemma api_run_job:
  "\<exists>r w'. api_run body uid w = (\<lparr>message = ''started'', resp_run_id = uid\<rparr>, r, w')
     \<and> r = \<lparr>run_id = uid,
             job = (case body of None \<Rightarrow> ''app-ci''
                    | Some d \<Rightarrow> (case d ''job'' of None \<Rightarrow> ''app-ci''
                                  | Some j \<Rightarrow> if j = [] then ''app-ci'' else j)),
             status = ''running'',
             steps = get_or PIPELINE (job r) [''checkout'', ''unit-tests'', ''deploy-staging''],
             current_step = Some ''checkout'',
             started_at = \<lfloor>clock w\<rfloor>, finished_at = None, duration_s = None\<rparr>
     \<and> builds w' = upsert_current r (builds w)
     \<and> history w' = history w \<and> logs w' = logs w \<and> clock w' = clock w
     \<and> journal w' = journal w @ [Saved_current (upsert_current r (builds w))]"
  by (cases body) (auto simp: api_run_def Let_def PIPELINE_cases utcnow_iso_def split: option.splits)

lemma catalog_steps_encodable:
  "\<forall>p \<in> set (get_or PIPELINE j [''checkout'', ''unit-tests'', ''deploy-staging'']).
     utf8_encodable p"
  by (simp add: PIPELINE_cases surrogate_lead_def)

text \<open>
  C8. Whatever the request, \<^verbatim>\<open>api_run\<close> answers \<open>started\<close> with the run's id and has no
  error branch. The run's job is the job name of the request (a non-empty string); a job
  that the catalog has gets the catalog's steps, any other job the three fallback steps.
  The answer is \<open>started\<close> whatever becomes of the thread, and when the id and the job name
  are strings that UTF-8 encodes, the run handed to the engine ends in a terminal state,
  its steps unchanged.
\<close>

theorem api_run_never_rejects:
  "\<exists>r w'.
       api_run body uid w = (\<lparr>message = ''started'', resp_run_id = uid\<rparr>, r, w')
     \<and> run_id r = uid \<and> status r = ''running''
     \<and> (\<forall>d j. body = Some d \<and> d ''job'' = Some j \<and> j \<noteq> [] \<longrightarrow> job r = j)
     \<and> (\<forall>ss. PIPELINE (job r) = Some ss \<longrightarrow> steps r = ss)
     \<and> (PIPELINE (job r) = None \<longrightarrow> steps r = [''checkout'', ''unit-tests'', ''deploy-staging''])
     \<and> steps r =
         (if job r = ''app-ci'' then
            [''checkout'', ''install-deps'', ''lint'', ''unit-tests'', ''build-artifact'',
             ''deploy-staging'']
          else if job r = ''api-ci'' then
            [''checkout'', ''install-deps'', ''unit-tests'', ''integration-tests'',
             ''security-scan'', ''docker-build'', ''deploy-prod'']
          else [''checkout'', ''unit-tests'', ''deploy-staging''])
     \<and> builds w' = upsert_current r (builds w)
     \<and> fst (start_run rnd body uid w) = \<lparr>message = ''started'', resp_run_id = uid\<rparr>
     \<and> (utf8_encodable uid \<and> utf8_encodable (job r) \<longrightarrow>
          (\<exists>r'' w''. start_run rnd body uid w
                       = (\<lparr>message = ''started'', resp_run_id = uid\<rparr>, Inr (r'', w''))
             \<and> (status r'' = ''success'' \<or> status r'' = ''failed'')
             \<and> steps r'' = steps r))"
proof -
  from api_run_job[of body uid w]
  obtain r w' where
    a: "api_run body uid w = (\<lparr>message = ''started'', resp_run_id = uid\<rparr>, r, w')"
    and r: "r = \<lparr>run_id = uid,
             job = (case body of None \<Rightarrow> ''app-ci''
                    | Some d \<Rightarrow> (case d ''job'' of None \<Rightarrow> ''app-ci''
                                  | Some j \<Rightarrow> if j = [] then ''app-ci'' else j)),
             status = ''running'',
             steps = get_or PIPELINE (job r) [''checkout'', ''unit-tests'', ''deploy-staging''],
             current_step = Some ''checkout'',
             started_at = \<lfloor>clock w\<rfloor>, finished_at = None, duration_s = None\<rparr>"
    and b: "builds w' = upsert_current r (builds w)"
    by blast
  have id: "run_id r = uid" and st: "status r = ''running''"
    by (subst r, simp)+
  have jb: "\<forall>d j. body = Some d \<and> d ''job'' = Some j \<and> j \<noteq> [] \<longrightarrow> job r = j"
    by (subst r) auto
  have ss: "steps r = get_or PIPELINE (job r) [''checkout'', ''unit-tests'', ''deploy-staging'']"
    by (subst r) simp
  have known: "\<forall>ss. PIPELINE (job r) = Some ss \<longrightarrow> steps r = ss"
    unfolding ss by (simp add: get_or_def)
  have unknown: "PIPELINE (job r) = None
      \<longrightarrow> steps r = [''checkout'', ''unit-tests'', ''deploy-staging'']"
    unfolding ss by (simp add: get_or_def)
  have cases: "steps r =
         (if job r = ''app-ci'' then
            [''checkout'', ''install-deps'', ''lint'', ''unit-tests'', ''build-artifact'',
             ''deploy-staging'']
          else if job r = ''api-ci'' then
            [''checkout'', ''install-deps'', ''unit-tests'', ''integration-tests'',
             ''security-scan'', ''docker-build'', ''deploy-prod'']
          else [''checkout'', ''unit-tests'', ''deploy-staging''])"
    unfolding ss by (rule PIPELINE_cases)
  have resp: "fst (start_run rnd body uid w) = \<lparr>message = ''started'', resp_run_id = uid\<rparr>"
    using a by (simp add: start_run_def)
  have enc: "\<forall>p \<in> set (steps r). utf8_encodable p"
    unfolding ss by (rule catalog_steps_encodable)
  have ends: "utf8_encodable uid \<and> utf8_encodable (job r) \<longrightarrow>
          (\<exists>r'' w''. start_run rnd body uid w
                       = (\<lparr>message = ''started'', resp_run_id = uid\<rparr>, Inr (r'', w''))
             \<and> (status r'' = ''success'' \<or> status r'' = ''failed'')
             \<and> steps r'' = steps r)"
  proof
    assume e: "utf8_encodable uid \<and> utf8_encodable (job r)"
    then have e1: "utf8_encodable (run_id r)" and e2: "utf8_encodable (job r)"
      using id by simp_all
    from simulate_pipeline_terminal[OF e1 e2 enc, of rnd w']
    obtain r'' w'' where
      s: "simulate_pipeline rnd r w' = Inr (r'', w'')"
      and t: "status r'' = ''success'' \<or> status r'' = ''failed''"
      and r'': "r'' = r\<lparr>status := status r'', finished_at := Some \<lfloor>clock w''\<rfloor>,
                    duration_s := Some (py_int (clock w'' - clock w')), current_step := None\<rparr>"
      by blast
    have ss'': "steps r'' = steps r"
      by (subst r'') simp
    have sr: "start_run rnd body uid w
                = (\<lparr>message = ''started'', resp_run_id = uid\<rparr>, Inr (r'', w''))"
      using a s by (simp add: start_run_def)
    from sr t ss'' show "\<exists>r'' w''. start_run rnd body uid w
                       = (\<lparr>message = ''started'', resp_run_id = uid\<rparr>, Inr (r'', w''))
             \<and> (status r'' = ''success'' \<or> status r'' = ''failed'')
             \<and> steps r'' = steps r"
      by blast
  qed
  show ?thesis
    apply (rule exI[of _ r], rule exI[of _ w'])
    apply (intro conjI)
    apply (fact a id st jb known unknown cases b resp ends)+
    done
qed

theorem api_run_never_rejects_witness:
  "PIPELINE ''nightly-build'' = None
   \<and> job (fst (snd (api_run (Some [''job'' \<mapsto> ''nightly-build'']) ''abcd1234'' example_world)))
       = ''nightly-build''
   \<and> steps (fst (snd (api_run (Some [''job'' \<mapsto> ''nightly-build'']) ''abcd1234'' example_world)))
       = [''checkout'', ''unit-tests'', ''deploy-staging'']
   \<and> fst (api_run (Some [''job'' \<mapsto> ''nightly-build'']) ''abcd1234'' example_world)
       = \<lparr>message = ''started'', resp_run_id = ''abcd1234''\<rparr>
   \<and> utf8_encodable ''abcd1234'' \<and> utf8_encodable ''nightly-build''
   \<and> (\<exists>r'' w''. start_run example_rnd (Some [''job'' \<mapsto> ''nightly-build'']) ''abcd1234''
                    example_world
                  = (\<lparr>message = ''started'', resp_run_id = ''abcd1234''\<rparr>, Inr (r'', w''))
         \<and> (status r'' = ''success'' \<or> status r'' = ''failed'')
         \<and> steps r'' = [''checkout'', ''unit-tests'', ''deploy-staging''])"
proof -
  have p: "PIPELINE ''nightly-build'' = None"
    by (simp add: PIPELINE_def)
  have e1: "utf8_encodable ''abcd1234''" and e2: "utf8_encodable ''nightly-build''"
    by (simp_all add: surrogate_lead_def)
  from api_run_never_rejects[of "Some [''job'' \<mapsto> ''nightly-build'']" "''abcd1234''"
      example_world example_rnd]
  obtain r w' where
    a: "api_run (Some [''job'' \<mapsto> ''nightly-build'']) ''abcd1234'' example_world
       = (\<lparr>message = ''started'', resp_run_id = ''abcd1234''\<rparr>, r, w')"
    and j: "\<forall>d j. Some [''job'' \<mapsto> ''nightly-build''] = Some d \<and> d ''job'' = Some j \<and> j \<noteq> []
              \<longrightarrow> job r = j"
    and u: "PIPELINE (job r) = None \<longrightarrow> steps r = [''checkout'', ''unit-tests'', ''deploy-staging'']"
    and t: "utf8_encodable ''abcd1234'' \<and> utf8_encodable (job r) \<longrightarrow>
          (\<exists>r'' w''. start_run example_rnd (Some [''job'' \<mapsto> ''nightly-build'']) ''abcd1234''
                        example_world
                       = (\<lparr>message = ''started'', resp_run_id = ''abcd1234''\<rparr>, Inr (r'', w''))
             \<and> (status r'' = ''success'' \<or> status r'' = ''failed'')
             \<and> steps r'' = steps r)"
    by (elim exE conjE) (rule that, assumption+)
  from j have jb: "job r = ''nightly-build''"
    by simp
  with u p have ss: "steps r = [''checkout'', ''unit-tests'', ''deploy-staging'']"
    by simp
  from e2 jb have e2': "utf8_encodable (job r)"
    by simp
  from mp[OF t conjI[OF e1 e2']]
  have ex: "\<exists>r'' w''. start_run example_rnd (Some [''job'' \<mapsto> ''nightly-build''])
                    ''abcd1234'' example_world
                  = (\<lparr>message = ''started'', resp_run_id = ''abcd1234''\<rparr>, Inr (r'', w''))
         \<and> (status r'' = ''success'' \<or> status r'' = ''failed'')
         \<and> steps r'' = [''checkout'', ''unit-tests'', ''deploy-staging'']"
    unfolding ss .
  have f1: "job (fst (snd (api_run (Some [''job'' \<mapsto> ''nightly-build'']) ''abcd1234'' example_world)))
       = ''nightly-build''"
    unfolding a using jb by simp
  have f2: "steps (fst (snd (api_run (Some [''job'' \<mapsto> ''nightly-build'']) ''abcd1234'' example_world)))
       = [''checkout'', ''unit-tests'', ''deploy-staging'']"
    unfolding a using ss by simp
  have f3: "fst (api_run (Some [''job'' \<mapsto> ''nightly-build'']) ''abcd1234'' example_world)
       = \<lparr>message = ''started'', resp_run_id = ''abcd1234''\<rparr>"
    unfolding a by simp
  show ?thesis
    apply (intro conjI)
    apply (fact p f1 f2 f3 e1 e2 ex)+
    done
qed

text \<open>
  C10. With no request body, with a body that has no \<^verbatim>\<open>job\<close>, or with the empty string as
  job name, the job is \<open>app-ci\<close> and the steps are the six steps the catalog has for it, not
  the three fallback steps.
\<close>

theorem api_run_default_job:
  assumes "body = None \<or> (\<exists>d. body = Some d \<and> (d ''job'' = None \<or> d ''job'' = Some ''''))"
  shows "\<exists>r w'. api_run body uid w = (\<lparr>message = ''started'', resp_run_id = uid\<rparr>, r, w')
     \<and> job r = ''app-ci''
     \<and> steps r = [''checkout'', ''install-deps'', ''lint'', ''unit-tests'', ''build-artifact'',
                    ''deploy-staging'']
     \<and> steps r \<noteq> [''checkout'', ''unit-tests'', ''deploy-staging'']
     \<and> PIPELINE ''app-ci'' = Some (steps r)
     \<and> length (steps r) = 6"
proof -
  from api_run_job[of body uid w]
  obtain r w' where
    a: "api_run body uid w = (\<lparr>message = ''started'', resp_run_id = uid\<rparr>, r, w')"
    and r: "r = \<lparr>run_id = uid,
             job = (case body of None \<Rightarrow> ''app-ci''
                    | Some d \<Rightarrow> (case d ''job'' of None \<Rightarrow> ''app-ci''
                                  | Some j \<Rightarrow> if j = [] then ''app-ci'' else j)),
             status = ''running'',
             steps = get_or PIPELINE (job r) [''checkout'', ''unit-tests'', ''deploy-staging''],
             current_step = Some ''checkout'',
             started_at = \<lfloor>clock w\<rfloor>, finished_at = None, duration_s = None\<rparr>"
    by blast
  have jb: "job r = ''app-ci''"
    using assms by (subst r) auto
  have ss: "steps r = [''checkout'', ''install-deps'', ''lint'', ''unit-tests'', ''build-artifact'',
                    ''deploy-staging'']"
    using jb by (subst r) (simp add: PIPELINE_cases)
  have p: "PIPELINE ''app-ci'' = Some (steps r)"
    unfolding ss by (simp add: PIPELINE_def)
  show ?thesis
    apply (intro exI[of _ r] exI[of _ w'])
    using a jb ss p by simp
qed

theorem api_run_default_job_witness:
  "job (fst (snd (api_run None ''abcd1234'' example_world))) = ''app-ci''
   \<and> job (fst (snd (api_run (Some Map.empty) ''abcd1234'' example_world))) = ''app-ci''
   \<and> job (fst (snd (api_run (Some [''job'' \<mapsto> '''']) ''abcd1234'' example_world))) = ''app-ci''
   \<and> length (steps (fst (snd (api_run (Some [''job'' \<mapsto> '''']) ''abcd1234'' example_world)))) = 6"
proof -
  have h1: "(None :: (string \<rightharpoonup> string) option) = None
      \<or> (\<exists>d. (None :: (string \<rightharpoonup> string) option) = Some d \<and> (d ''job'' = None \<or> d ''job'' = Some ''''))"
    by simp
  have h2: "Some (Map.empty :: string \<rightharpoonup> string) = None
      \<or> (\<exists>d. Some (Map.empty :: string \<rightharpoonup> string) = Some d \<and> (d ''job'' = None \<or> d ''job'' = Some ''''))"
    by simp
  have h3: "Some [''job'' \<mapsto> ''''] = None
      \<or> (\<exists>d. Some [''job'' \<mapsto> ''''] = Some d \<and> (d ''job'' = None \<or> d ''job'' = Some ''''))"
    by simp
  from api_run_default_job[OF h1, of "''abcd1234''" example_world]
  have a: "job (fst (snd (api_run None ''abcd1234'' example_world))) = ''app-ci''"
    by auto
  from api_run_default_job[OF h2, of "''abcd1234''" example_world]
  have b: "job (fst (snd (api_run (Some Map.empty) ''abcd1234'' example_world))) = ''app-ci''"
    by auto
  from api_run_default_job[OF h3, of "''abcd1234''" example_world]
  have c: "job (fst (snd (api_run (Some [''job'' \<mapsto> '''']) ''abcd1234'' example_world))) = ''app-ci''
    \<and> length (steps (fst (snd (api_run (Some [''job'' \<mapsto> '''']) ''abcd1234'' example_world)))) = 6"
    by auto
  show ?thesis
    using a b c by simp
qed

section \<open>Floating point: the rounding error of a double\<close>

lemma bit_length_bounds: "0 < n \<Longrightarrow> 2 ^ (bit_length n - 1) \<le> n \<and> n < 2 ^ bit_length n"
proof (induction n rule: bit_length.induct)
  case (1 n)
  show ?case
  proof (cases "n div 2 = 0")
    case True
    with 1 have "n = 1" by linarith
    then show ?thesis by (simp add: bit_length.simps)
  next
    case False
    with 1 have ih: "2 ^ (bit_length (n div 2) - 1) \<le> n div 2" "n div 2 < 2 ^ bit_length (n div 2)"
      by simp_all
    have pos: "0 < bit_length (n div 2)"
      using False by (simp add: bit_length.simps[of "n div 2"])
    have b: "bit_length n = Suc (bit_length (n div 2))"
      using 1 by (simp add: bit_length.simps[of n])
    have "2 ^ (bit_length n - 1) = 2 * 2 ^ (bit_length (n div 2) - 1)"
      using pos b by (cases "bit_length (n div 2)") simp_all
    also have "\<dots> \<le> 2 * (n div 2)" using ih by simp
    also have "\<dots> \<le> n" by simp
    finally have lo: "2 ^ (bit_length n - 1) \<le> n" .
    have "n < 2 * (n div 2) + 2" by linarith
    also have "\<dots> \<le> 2 * 2 ^ bit_length (n div 2)" using ih by linarith
    finally have hi: "n < 2 ^ bit_length n" using b by simp
    show ?thesis using lo hi by simp
  qed
qed


lemma pow2_pos: "0 < pow2 e"
  by (simp add: pow2_def)

lemma pow2_Suc: "pow2 (e + 1) = 2 * pow2 e"
proof (cases "0 \<le> e")
  case True
  then show ?thesis by (simp add: pow2_def nat_add_distrib)
next
  case False
  then have "nat (- e) = Suc (nat (- (e + 1)))" by simp
  then show ?thesis using False by (simp add: pow2_def)
qed

lemma pow2_of_nat: "pow2 (int n) = 2 ^ n"
  by (simp add: pow2_def)

lemma pow2_neg_nat: "pow2 (- int n) = 1 / 2 ^ n"
  by (cases n) (simp_all add: pow2_def nat_add_distrib)

lemma ilog2_bounds:
  assumes "0 < x"
  shows "pow2 (ilog2 x) \<le> x \<and> x < pow2 (ilog2 x + 1)"
proof (cases "1 \<le> x")
  case True
  let ?n = "nat \<lfloor>x\<rfloor>"
  have n: "0 < ?n" using True by simp
  from bit_length_bounds[OF n]
  have lo: "2 ^ (bit_length ?n - 1) \<le> ?n" and hi: "?n < 2 ^ bit_length ?n"
    by simp_all
  have bl: "0 < bit_length ?n"
    using n by (simp add: bit_length.simps[of ?n])
  then have il: "ilog2 x = int (bit_length ?n - 1)"
    using True by (simp add: ilog2_def)
  have nx: "of_nat ?n \<le> x" "x < of_nat ?n + 1"
    using True by (simp_all add: of_nat_nat) linarith+
  have "(2::rat) ^ (bit_length ?n - 1) \<le> of_nat ?n"
    using lo by (metis of_nat_le_iff of_nat_numeral of_nat_power)
  then have a: "pow2 (ilog2 x) \<le> x"
    using nx unfolding il pow2_of_nat by linarith
  have "Suc ?n \<le> 2 ^ bit_length ?n"
    using hi by (rule Suc_leI)
  then have "(of_nat (Suc ?n) :: rat) \<le> of_nat (2 ^ bit_length ?n)"
    by (rule of_nat_mono)
  then have "of_nat ?n + 1 \<le> (2::rat) ^ bit_length ?n"
    by simp
  moreover have "ilog2 x + 1 = int (bit_length ?n)"
    using bl il by simp
  ultimately have b: "x < pow2 (ilog2 x + 1)"
    using nx by (simp add: pow2_of_nat)
  show ?thesis using a b by simp
next
  case False
  let ?m = "\<lceil>1 / x\<rceil>"
  let ?n = "nat (?m - 1)"
  have x1: "1 < 1 / x" using False assms by simp
  then have m2: "2 \<le> ?m" by linarith
  then have n: "0 < ?n" by simp
  from bit_length_bounds[OF n]
  have lo: "2 ^ (bit_length ?n - 1) \<le> ?n" and hi: "?n < 2 ^ bit_length ?n"
    by simp_all
  have bl: "0 < bit_length ?n"
    using n by (simp add: bit_length.simps[of ?n])
  have il: "ilog2 x = - int (bit_length ?n)"
    using False by (simp add: ilog2_def)
  have mx: "of_int ?m - 1 < 1 / x" "1 / x \<le> of_int ?m"
    by linarith+
  have "0 \<le> ?m - 1"
    using m2 by linarith
  then have "int ?n = ?m - 1"
    by (rule nat_0_le)
  then have "(of_int (int ?n) :: rat) = of_int (?m - 1)"
    by (rule arg_cong)
  then have nm: "(of_nat ?n :: rat) = of_int ?m - 1"
    by (simp only: of_int_of_nat_eq of_int_diff of_int_1)
  have "Suc ?n \<le> 2 ^ bit_length ?n" using hi by (rule Suc_leI)
  then have "(of_nat (Suc ?n) :: rat) \<le> of_nat (2 ^ bit_length ?n)"
    by (rule of_nat_mono)
  then have "of_int ?m \<le> (2::rat) ^ bit_length ?n"
    using nm by simp
  then have "1 / x \<le> 2 ^ bit_length ?n" using mx by linarith
  then have "1 \<le> 2 ^ bit_length ?n * x"
    using assms by (simp add: field_simps)
  then have a: "pow2 (ilog2 x) \<le> x"
    unfolding il pow2_neg_nat by (simp add: field_simps)
  have "(2::rat) ^ (bit_length ?n - 1) \<le> of_nat ?n"
    using lo by (metis of_nat_le_iff of_nat_numeral of_nat_power)
  then have "2 ^ (bit_length ?n - 1) < 1 / x"
    using nm mx by linarith
  then have "2 ^ (bit_length ?n - 1) * x < 1"
    using assms by (simp add: field_simps)
  moreover have "ilog2 x + 1 = - int (bit_length ?n - 1)"
    using il bl by simp
  ultimately have b: "x < pow2 (ilog2 x + 1)"
    by (simp only: pow2_neg_nat) (simp add: field_simps)
  show ?thesis using a b by simp
qed


lemma pow2_add_nat: "pow2 (e + int k) = 2 ^ k * pow2 e"
proof (induction k)
  case 0
  show ?case by simp
next
  case (Suc k)
  have "e + int (Suc k) = (e + int k) + 1"
    by simp
  then have "pow2 (e + int (Suc k)) = pow2 ((e + int k) + 1)"
    by (rule arg_cong)
  also have "\<dots> = 2 * pow2 (e + int k)"
    by (rule pow2_Suc)
  finally show ?case using Suc.IH by simp
qed

lemma round_half_even_near: "\<bar>of_int (round_half_even x) - x\<bar> \<le> 1 / 2"
proof -
  have "of_int \<lfloor>x\<rfloor> \<le> x" "x < of_int \<lfloor>x\<rfloor> + 1"
    by linarith+
  then show ?thesis
    by (auto simp: round_half_even_def Let_def)
qed

lemma fl_error: "\<bar>fl x - x\<bar> \<le> \<bar>x\<bar> / 2 ^ 53"
proof (cases "x = 0")
  case True
  then show ?thesis by (simp add: fl_def)
next
  case False
  define e where "e = ilog2 \<bar>x\<bar> - 52"
  define p where "p = pow2 e"
  define M where "M = x / p"
  have p: "0 < p" by (simp add: p_def pow2_pos)
  have ax: "0 < \<bar>x\<bar>" using False by simp
  have "pow2 (ilog2 \<bar>x\<bar>) \<le> \<bar>x\<bar>"
    using ilog2_bounds[OF ax] by simp
  moreover have "pow2 (ilog2 \<bar>x\<bar>) = 2 ^ 52 * p"
    using pow2_add_nat[of e 52] by (simp add: e_def p_def)
  ultimately have "2 ^ 52 * p \<le> \<bar>x\<bar>" by simp
  then have M: "2 ^ 52 \<le> \<bar>M\<bar>"
    using p by (simp add: M_def field_simps abs_mult)
  have f: "fl x = of_int (round_half_even M) * p"
    using False by (simp add: fl_def Let_def e_def p_def M_def)
  have x: "x = M * p" using p by (simp add: M_def)
  have "\<bar>fl x - x\<bar> = \<bar>of_int (round_half_even M) - M\<bar> * p"
    unfolding f using p by (subst x) (simp add: left_diff_distrib[symmetric] abs_mult)
  also have "\<dots> \<le> 1 / 2 * p"
    using round_half_even_near[of M] p by (intro mult_right_mono) simp_all
  also have "\<dots> \<le> \<bar>M\<bar> / 2 ^ 53 * p"
    using M p by (intro mult_right_mono) simp_all
  also have "\<dots> = \<bar>x\<bar> / 2 ^ 53"
  proof -
    have "\<bar>x\<bar> = \<bar>M\<bar> * p"
      using p by (subst x) (simp add: abs_mult)
    then show ?thesis by simp
  qed
  finally show ?thesis .
qed

lemma rate_nearest_tenth:
  fixes s t :: nat
  assumes st: "s \<le> t" and t0: "0 < t" and tb: "t \<le> 10 ^ 12"
  shows "\<exists>k::int. py_round1 (fl (fl (of_nat s / of_nat t) * 100)) = fl (of_int k / 10)
           \<and> \<bar>of_int k / 10 - (of_nat s :: rat) / of_nat t * 100\<bar> \<le> 1 / 20"
proof -
  define q :: rat where "q = of_nat s / of_nat t"
  define a where "a = fl q"
  define b where "b = fl (a * 100)"
  define k where "k = round_half_even (b * 10)"
  define z :: rat where "z = 1000 * q"
  have tpos: "(0::rat) < of_nat t" using t0 by simp
  have q01: "0 \<le> q" "q \<le> 1"
    using st tpos by (simp_all add: q_def)
  have ea: "\<bar>a - q\<bar> \<le> 1 / 2 ^ 53"
  proof -
    have "\<bar>a - q\<bar> \<le> \<bar>q\<bar> / 2 ^ 53" unfolding a_def by (rule fl_error)
    also have "\<dots> \<le> 1 / 2 ^ 53" using q01 by (simp add: divide_right_mono)
    finally show ?thesis .
  qed
  have "(1::rat) / 2 ^ 53 \<le> 1"
    by simp
  with ea have "\<bar>a - q\<bar> \<le> 1"
    by (rule order_trans)
  then have a2: "\<bar>a\<bar> \<le> 2"
    using q01 by (simp add: abs_if split: if_splits)
  have eb: "\<bar>b - a * 100\<bar> \<le> 200 / 2 ^ 53"
  proof -
    have "\<bar>b - a * 100\<bar> \<le> \<bar>a * 100\<bar> / 2 ^ 53" unfolding b_def by (rule fl_error)
    also have "\<dots> \<le> 200 / 2 ^ 53" using a2 by (simp add: abs_mult divide_right_mono)
    finally show ?thesis .
  qed
  have "\<bar>b - 100 * q\<bar> \<le> \<bar>b - a * 100\<bar> + 100 * \<bar>a - q\<bar>"
    by (simp add: abs_if split: if_splits)
  also have "\<dots> \<le> 200 / 2 ^ 53 + 100 * (1 / 2 ^ 53)"
    using ea eb by (intro add_mono mult_left_mono) simp_all
  finally have "\<bar>b - 100 * q\<bar> \<le> 300 / 2 ^ 53"
    by simp
  then have "10 * \<bar>b - 100 * q\<bar> \<le> 10 * (300 / 2 ^ 53)"
    by (intro mult_left_mono) simp_all
  moreover have "\<bar>b * 10 - z\<bar> = 10 * \<bar>b - 100 * q\<bar>"
    unfolding z_def by (simp add: abs_if split: if_splits)
  ultimately have d: "\<bar>b * 10 - z\<bar> \<le> 3000 / 2 ^ 53"
    by simp
  have kb: "\<bar>of_int k - b * 10\<bar> \<le> 1 / 2"
    unfolding k_def by (rule round_half_even_near)
  have "\<bar>of_int k - z\<bar> \<le> \<bar>of_int k - b * 10\<bar> + \<bar>b * 10 - z\<bar>"
    by (simp add: abs_if split: if_splits)
  also have "\<dots> \<le> 1 / 2 + 3000 / 2 ^ 53"
    using d kb by (rule add_mono[rotated])
  finally have kz: "\<bar>of_int k - z\<bar> \<le> 1 / 2 + 3000 / 2 ^ 53" .
  have near: "\<bar>of_int k - z\<bar> \<le> 1 / 2"
  proof (rule ccontr)
    assume "\<not> \<bar>of_int k - z\<bar> \<le> 1 / 2"
    then have gt: "1 / 2 < \<bar>of_int k - z\<bar>" by simp
    define D :: int where "D = \<bar>k * int t - 1000 * int s\<bar>"
    have zt: "z * of_nat t = 1000 * of_nat s"
      using tpos by (simp add: z_def q_def)
    have "(of_int k - z) * of_nat t = of_int k * of_nat t - z * of_nat t"
      by (rule left_diff_distrib)
    also have "\<dots> = of_int (k * int t - 1000 * int s)"
      unfolding zt by simp
    finally have "\<bar>(of_int k - z) * of_nat t\<bar> = (of_int D :: rat)"
      unfolding D_def by (simp only: of_int_abs)
    then have Dt: "\<bar>of_int k - z\<bar> * of_nat t = of_int D"
      by (simp add: abs_mult)
    have "1 / 2 * of_nat t < \<bar>of_int k - z\<bar> * of_nat t"
      using gt tpos by (rule mult_strict_right_mono)
    then have "(of_int (int t) :: rat) < of_int (2 * D)"
      unfolding Dt by simp
    then have "int t < 2 * D" by (simp only: of_int_less_iff)
    then have "int t + 1 \<le> 2 * D" by simp
    then have "(of_int (int t + 1) :: rat) \<le> of_int (2 * D)"
      by (simp only: of_int_le_iff)
    then have "(of_nat t + 1) / 2 \<le> \<bar>of_int k - z\<bar> * of_nat t"
      unfolding Dt by simp
    also have "\<dots> \<le> (1 / 2 + 3000 / 2 ^ 53) * of_nat t"
      using kz tpos by (intro mult_right_mono) simp_all
    finally have "1 \<le> 6000 / 2 ^ 53 * (of_nat t :: rat)"
      by (simp add: field_simps)
    moreover have "(of_nat t :: rat) \<le> 10 ^ 12"
      using tb by (metis of_nat_le_iff of_nat_numeral of_nat_power)
    ultimately have "(1::rat) \<le> 6000 / 2 ^ 53 * 10 ^ 12"
      by (smt (verit) mult_left_mono divide_nonneg_nonneg zero_le_numeral zero_le_power order_trans)
    then show False by simp
  qed
  have "\<bar>of_int k / 10 - (of_nat s :: rat) / of_nat t * 100\<bar> = \<bar>of_int k - z\<bar> / 10"
    unfolding z_def q_def by (simp add: abs_le_iff field_simps abs_if)
  also have "\<dots> \<le> 1 / 20" using near by simp
  finally have "\<bar>of_int k / 10 - (of_nat s :: rat) / of_nat t * 100\<bar> \<le> 1 / 20" .
  moreover have "py_round1 (fl (fl (of_nat s / of_nat t) * 100)) = fl (of_int k / 10)"
    by (simp add: py_round1_def k_def b_def a_def q_def)
  ultimately show ?thesis by blast
qed


section \<open>The stats aggregator: rates, average duration, time to recovery\<close>

lemma last7_window:
  "filter (\<lambda>h. now - of_int (finished_dt h) \<le> 7 * 86400) (filter (\<lambda>h. finished_at h \<noteq> None) hist)
     = window now hist"
  unfolding window_def filter_filter
  by (rule filter_cong) (auto simp: in_window_def finished_dt_def split: option.splits)



lemma calc_stats_window:
  assumes "hist \<noteq> []"
  shows "mttr_minutes (calc_stats now hist) =
           float_int_mean (mttr_loop (window now hist) (window now hist) [])"
    and "success_rate (calc_stats now hist) =
           (if window now hist = [] then 0 else float_rate ''success'' (window now hist))"
    and "cfr (calc_stats now hist) =
           (if window now hist = [] then 0 else float_rate ''failed'' (window now hist))"
    and "avg_duration (calc_stats now hist) =
           (if map (\<lambda>h. the (duration_s h)) (filter truthy_duration (window now hist)) \<noteq> []
            then py_int (truediv (of_int (sum_list (map (\<lambda>h. the (duration_s h))
                                              (filter truthy_duration (window now hist)))))
                          (of_nat (length (map (\<lambda>h. the (duration_s h))
                                              (filter truthy_duration (window now hist))))))
            else 0)"
  using assms
  unfolding calc_stats_def Let_def last7_window count_status_def float_rate_def float_int_mean_def
  by simp_all









lemma float_rate_nearest:
  assumes "win \<noteq> []" and "length win \<le> 10 ^ 12"
  shows "\<exists>k::int. float_rate st win = fl (of_int k / 10)
           \<and> \<bar>of_int k / 10 - exact_rate st win\<bar> \<le> 1 / 20"
proof -
  have c: "count_status st win \<le> length win"
    by (simp add: count_status_def)
  have n: "0 < length win"
    using assms(1) by simp
  from rate_nearest_tenth[OF c n assms(2)] show ?thesis
    by (simp add: float_rate_def exact_rate_def truediv_def fmul_def)
qed

lemma rate_75:
  "py_round1 (fmul (truediv 3 4) 100) = 75" "py_round1 (fmul (truediv 1 4) 100) = 25"
  by code_simp+

lemma float_rate_75:
  assumes "count_status ''success'' win = 3" "count_status ''failed'' win = 1" "length win = 4"
  shows "float_rate ''success'' win = 75" "float_rate ''failed'' win = 25"
  using assms by (simp_all add: float_rate_def rate_75)

text \<open>
  C6. \<open>success_rate\<close> and \<open>cfr\<close> are the successes and the failures of the window over its
  length, times 100, computed in floating point and rounded to one decimal, and 0 when the
  window is empty. For a window of at most \<open>10\<^sup>1\<^sup>2\<close> entries each is the double nearest to a
  one-decimal number that is at most one twentieth away from the exact percentage (a
  number nearest to it, either neighbour at a tie). A window of three successes and one
  failure has \<open>success_rate = 75\<close> and \<open>cfr = 25\<close>.
\<close>

theorem calc_stats_rates:
  "success_rate (calc_stats now hist) =
     (if window now hist = [] then 0 else float_rate ''success'' (window now hist))
   \<and> cfr (calc_stats now hist) =
     (if window now hist = [] then 0 else float_rate ''failed'' (window now hist))
   \<and> (window now hist \<noteq> [] \<and> length (window now hist) \<le> 10 ^ 12 \<longrightarrow>
        (\<exists>k m :: int.
            success_rate (calc_stats now hist) = fl (of_int k / 10)
          \<and> \<bar>of_int k / 10 - exact_rate ''success'' (window now hist)\<bar> \<le> 1 / 20
          \<and> cfr (calc_stats now hist) = fl (of_int m / 10)
          \<and> \<bar>of_int m / 10 - exact_rate ''failed'' (window now hist)\<bar> \<le> 1 / 20))
   \<and> (count_status ''success'' (window now hist) = 3
        \<and> count_status ''failed'' (window now hist) = 1 \<and> length (window now hist) = 4
      \<longrightarrow> success_rate (calc_stats now hist) = 75 \<and> cfr (calc_stats now hist) = 25)"
proof -
  let ?win = "window now hist"
  have s: "success_rate (calc_stats now hist) = (if ?win = [] then 0 else float_rate ''success'' ?win)"
  proof (cases "hist = []")
    case True
    then show ?thesis by (simp add: calc_stats_def window_def)
  next
    case False
    then show ?thesis by (rule calc_stats_window(2))
  qed
  have f: "cfr (calc_stats now hist) = (if ?win = [] then 0 else float_rate ''failed'' ?win)"
  proof (cases "hist = []")
    case True
    then show ?thesis by (simp add: calc_stats_def window_def)
  next
    case False
    then show ?thesis by (rule calc_stats_window(3))
  qed
  have near: "?win \<noteq> [] \<and> length ?win \<le> 10 ^ 12 \<longrightarrow>
        (\<exists>k m :: int.
            success_rate (calc_stats now hist) = fl (of_int k / 10)
          \<and> \<bar>of_int k / 10 - exact_rate ''success'' ?win\<bar> \<le> 1 / 20
          \<and> cfr (calc_stats now hist) = fl (of_int m / 10)
          \<and> \<bar>of_int m / 10 - exact_rate ''failed'' ?win\<bar> \<le> 1 / 20)"
  proof
    assume a: "?win \<noteq> [] \<and> length ?win \<le> 10 ^ 12"
    then have ne: "?win \<noteq> []" and le: "length ?win \<le> 10 ^ 12"
      by simp_all
    from float_rate_nearest[OF ne le, of "''success''"]
    obtain k :: int where k: "float_rate ''success'' ?win = fl (of_int k / 10)"
      "\<bar>of_int k / 10 - exact_rate ''success'' ?win\<bar> \<le> 1 / 20"
      by (elim exE conjE)
    from float_rate_nearest[OF ne le, of "''failed''"]
    obtain m :: int where m: "float_rate ''failed'' ?win = fl (of_int m / 10)"
      "\<bar>of_int m / 10 - exact_rate ''failed'' ?win\<bar> \<le> 1 / 20"
      by (elim exE conjE)
    show "\<exists>k m :: int.
            success_rate (calc_stats now hist) = fl (of_int k / 10)
          \<and> \<bar>of_int k / 10 - exact_rate ''success'' ?win\<bar> \<le> 1 / 20
          \<and> cfr (calc_stats now hist) = fl (of_int m / 10)
          \<and> \<bar>of_int m / 10 - exact_rate ''failed'' ?win\<bar> \<le> 1 / 20"
      apply (rule exI[of _ k], rule exI[of _ m])
      using k m ne unfolding s f by simp
  qed
  have ex: "count_status ''success'' ?win = 3
        \<and> count_status ''failed'' ?win = 1 \<and> length ?win = 4
      \<longrightarrow> success_rate (calc_stats now hist) = 75 \<and> cfr (calc_stats now hist) = 25"
  proof
    assume a: "count_status ''success'' ?win = 3
        \<and> count_status ''failed'' ?win = 1 \<and> length ?win = 4"
    then have ne: "?win \<noteq> []"
      by auto
    from a float_rate_75[of ?win] have "float_rate ''success'' ?win = 75"
      "float_rate ''failed'' ?win = 25"
      by simp_all
    then show "success_rate (calc_stats now hist) = 75 \<and> cfr (calc_stats now hist) = 25"
      unfolding s f using ne by simp
  qed
  show ?thesis
    apply (intro conjI)
       apply (fact s)
      apply (fact f)
     apply (fact near)
    apply (fact ex)
    done
qed

theorem calc_stats_rates_witness:
  "window 1000
     [example_run ''a'' ''app-ci'' ''success'' (Some 100) (Some 3),
      example_run ''b'' ''app-ci'' ''failed'' (Some 200) (Some 4),
      example_run ''c'' ''api-ci'' ''success'' (Some 300) (Some 5),
      example_run ''d'' ''app-ci'' ''success'' (Some 400) (Some 6)] \<noteq> []
   \<and> length (window 1000
     [example_run ''a'' ''app-ci'' ''success'' (Some 100) (Some 3),
      example_run ''b'' ''app-ci'' ''failed'' (Some 200) (Some 4),
      example_run ''c'' ''api-ci'' ''success'' (Some 300) (Some 5),
      example_run ''d'' ''app-ci'' ''success'' (Some 400) (Some 6)]) \<le> 10 ^ 12
   \<and> success_rate (calc_stats 1000
     [example_run ''a'' ''app-ci'' ''success'' (Some 100) (Some 3),
      example_run ''b'' ''app-ci'' ''failed'' (Some 200) (Some 4),
      example_run ''c'' ''api-ci'' ''success'' (Some 300) (Some 5),
      example_run ''d'' ''app-ci'' ''success'' (Some 400) (Some 6)]) = 75
   \<and> cfr (calc_stats 1000
     [example_run ''a'' ''app-ci'' ''success'' (Some 100) (Some 3),
      example_run ''b'' ''app-ci'' ''failed'' (Some 200) (Some 4),
      example_run ''c'' ''api-ci'' ''success'' (Some 300) (Some 5),
      example_run ''d'' ''app-ci'' ''success'' (Some 400) (Some 6)]) = 25"
  using calc_stats_rates[of 1000
     "[example_run ''a'' ''app-ci'' ''success'' (Some 100) (Some 3),
      example_run ''b'' ''app-ci'' ''failed'' (Some 200) (Some 4),
      example_run ''c'' ''api-ci'' ''success'' (Some 300) (Some 5),
      example_run ''d'' ''app-ci'' ''success'' (Some 400) (Some 6)]"]
  by (simp add: example_run_def window_def in_window_def count_status_def)

text \<open>
  C6, as the claim states it, fails: with 23 successes among 80 entries the exact
  percentage is 28.75, which rounds to 28.8 (half to even or half up), and \<open>success_rate\<close> is
  28.7, the floating point product falling short of 28.75.
\<close>

theorem success_rate_not_exact_rounding:
  "success_rate (calc_stats 1000
      (replicate 23 (example_run ''a'' ''app-ci'' ''success'' (Some 100) (Some 3))
       @ replicate 57 (example_run ''b'' ''app-ci'' ''failed'' (Some 200) (Some 4))))
     = fl (287 / 10)
   \<and> exact_rate ''success'' (window 1000
      (replicate 23 (example_run ''a'' ''app-ci'' ''success'' (Some 100) (Some 3))
       @ replicate 57 (example_run ''b'' ''app-ci'' ''failed'' (Some 200) (Some 4))))
     = 115 / 4
   \<and> round_half_even (115 / 4 * 10) = 288
   \<and> round_half_up (115 / 4 * 10) = 288
   \<and> fl (287 / 10) \<noteq> fl (288 / 10)
   \<and> fl (287 / 10) \<noteq> 288 / 10"
  by code_simp

text \<open>
  C5. The average duration leaves out the entries whose \<open>duration_s\<close> is 0: the filter
  \<^verbatim>\<open>if h.get("duration_s")\<close> is false for 0 as it is for \<^verbatim>\<open>None\<close>. A window of a run of 0
  seconds and a run of 10 seconds has \<open>avg_duration = 10\<close>, where the integer mean of the
  two durations is 5.
\<close>

theorem calc_stats_avg_duration_skips_zero:
  "avg_duration (calc_stats 1000
     [example_run ''a'' ''app-ci'' ''failed'' (Some 900) (Some 0),
      example_run ''b'' ''app-ci'' ''success'' (Some 950) (Some 10)]) = 10
   \<and> map duration_s (window 1000
     [example_run ''a'' ''app-ci'' ''failed'' (Some 900) (Some 0),
      example_run ''b'' ''app-ci'' ''success'' (Some 950) (Some 10)]) = [Some 0, Some 10]
   \<and> int_mean [0, 10] = 5"
  by code_simp

end
